theory Spec2Isabelle
  imports
    Main
    "HOL-Library.Char_ord"
    "HOL-Library.List_Lexorder"
    "HOL-Library.Product_Lexorder"
    "HOL-Library.AList"
    "HOL-Library.Multiset"
begin

section \<open>Python values, exceptions and text\<close>

text \<open>
  The repository is Python. A \<open>str\<close> is modelled as a \<open>string\<close> whose characters are the
  code points of ASCII text; \<open>str\<close> comparison is the lexicographic order on code points
  (the orders of \<open>Char_ord\<close> and \<open>List_Lexorder\<close>). A Python \<open>float\<close> is an IEEE double:
  a finite double is \<open>m * 2 ^ e\<close> for integers \<open>m\<close> and \<open>e\<close>, which is all that \<open>int()\<close>
  needs of it.
\<close>

datatype pyfloat = Finite int int | NaN | Infinity bool

datatype pyval =
    PNone
  | PBool bool
  | PInt int
  | PFloat pyfloat
  | PStr string
  | PList "pyval list"
  | PDict "(string \<times> pyval) list"

datatype exn =
    AttributeError
  | TypeError
  | ValueError
  | KeyError
  | IndexError
  | OverflowError
  | HTTPError
  | JSONDecodeError
  | ConnectionError
  | Timeout

text \<open>\<open>str.upper()\<close>, \<open>str.strip()\<close> and \<open>str.isdigit()\<close> on ASCII text.\<close>

definition upper_char :: "char \<Rightarrow> char" where
  "upper_char c =
     (if CHR ''a'' \<le> c \<and> c \<le> CHR ''z'' then char_of (of_char c - (32::nat)) else c)"

definition upper :: "string \<Rightarrow> string" where
  "upper s = map upper_char s"

definition isspace :: "char \<Rightarrow> bool" where
  "isspace c \<longleftrightarrow>
     (let n = (of_char c :: nat) in (9 \<le> n \<and> n \<le> 13) \<or> (28 \<le> n \<and> n \<le> 32))"

definition strip :: "string \<Rightarrow> string" where
  "strip s = rev (dropWhile isspace (rev (dropWhile isspace s)))"

definition isdigit :: "char \<Rightarrow> bool" where
  "isdigit c \<longleftrightarrow> CHR ''0'' \<le> c \<and> c \<le> CHR ''9''"

text \<open>\<open>int(c)\<close> for a single decimal digit \<open>c\<close>.\<close>

definition digit_val :: "char \<Rightarrow> int" where
  "digit_val c = int (of_char c) - 48"


section \<open>Size ordering (\<open>inventory_formatter._size_sort_key\<close>)\<close>

text \<open>
  The lookup table \<open>size_order\<close> of the source, entry for entry. \<open>dict.get\<close> is \<open>map_of\<close>.
\<close>

definition size_order :: "(string \<times> int) list" where
  "size_order =
     [(''XS'', 1), (''S'', 2), (''M'', 3), (''L'', 4), (''XL'', 5),
      (''LT'', 6), (''XLT'', 7), (''2XLT'', 8), (''3XLT'', 9), (''4XLT'', 10)]"

text \<open>
  \<open>_size_sort_key\<close>: the token is upper-cased and stripped; \<open>size[0]\<close> raises \<open>IndexError\<close>
  when nothing is left. A leading digit \<open>d\<close> gives \<open>(d + 10, rest)\<close>; otherwise the table
  rank, or 99 for a token the table does not hold, paired with the token itself.
\<close>

definition size_sort_key :: "string \<Rightarrow> exn + (int \<times> string)" where
  "size_sort_key size0 =
     (case strip (upper size0) of
        [] \<Rightarrow> Inl IndexError
      | c # base \<Rightarrow>
          if isdigit c then Inr (digit_val c + 10, base)
          else Inr (case map_of size_order (c # base) of Some n \<Rightarrow> n | None \<Rightarrow> 99, c # base))"





section \<open>Python built-ins taken as parameters\<close>

text \<open>
  Three built-ins of the interpreter work on floating-point text and are not part of the
  repository: \<open>float(x)\<close> (\<open>None\<close> where it raises), \<open>repr\<close> of a float or a container,
  and the format \<open>:.2f\<close>. Every function that calls one takes them as \<open>rt\<close>.
\<close>

record builtins =
  py_float :: "pyval \<Rightarrow> pyfloat option"
  py_repr :: "pyval \<Rightarrow> string"
  py_format_2f :: "pyfloat \<Rightarrow> string"

section \<open>Dictionaries and tables\<close>

text \<open>
  A \<open>dict\<close> keeps its keys in insertion order: an association list with distinct keys.
  \<open>d[k] = v\<close> is \<open>AList.update\<close> (replace in place, or append), \<open>d.get(k)\<close> is \<open>map_of\<close>.
  \<open>dict_fill f ks d\<close> is the loop \<open>for k in ks: d[k] = f(k)\<close>.
\<close>

fun dict_fill :: "('k \<Rightarrow> 'v) \<Rightarrow> 'k list \<Rightarrow> ('k \<times> 'v) list \<Rightarrow> ('k \<times> 'v) list" where
  "dict_fill f [] d = d"
| "dict_fill f (k # ks) d = dict_fill f ks (AList.update k (f k) d)"

text \<open>
  The part of \<open>pandas.DataFrame\<close> the code uses: column labels, index labels and the
  cells row by row. Cells hold the values they were given; the dtype inference of pandas
  is not modelled.
\<close>

record dataframe =
  df_columns :: "string list"
  df_index :: "pyval list"
  df_data :: "pyval list list"

text \<open>\<open>pd.DataFrame()\<close>.\<close>

definition pd_DataFrame_empty :: dataframe where
  "pd_DataFrame_empty = \<lparr>df_columns = [], df_index = [], df_data = []\<rparr>"

text \<open>
  \<open>pd.DataFrame(records)\<close> for a list of dicts: the columns are the keys in order of first
  appearance, the index is \<open>0 .. n - 1\<close>, and a key a record lacks gives the cell \<open>NaN\<close>.
\<close>

fun add_keys :: "string list \<Rightarrow> string list \<Rightarrow> string list" where
  "add_keys cols [] = cols"
| "add_keys cols (k # ks) = add_keys (if k \<in> set cols then cols else cols @ [k]) ks"

fun record_columns :: "string list \<Rightarrow> (string \<times> pyval) list list \<Rightarrow> string list" where
  "record_columns cols [] = cols"
| "record_columns cols (r # rs) = record_columns (add_keys cols (map fst r)) rs"

definition record_cells :: "string list \<Rightarrow> (string \<times> pyval) list \<Rightarrow> pyval list" where
  "record_cells cols r =
     map (\<lambda>c. case map_of r c of Some v \<Rightarrow> v | None \<Rightarrow> PFloat NaN) cols"

definition pd_DataFrame :: "(string \<times> pyval) list list \<Rightarrow> dataframe" where
  "pd_DataFrame records =
     (let cols = record_columns [] records in
      \<lparr>df_columns = cols,
       df_index = map (\<lambda>i. PInt (int i)) [0..<length records],
       df_data = map (record_cells cols) records\<rparr>)"

text \<open>\<open>pd.DataFrame({col: [v]})\<close>: one column, one row.\<close>

definition pd_DataFrame_cell :: "string \<Rightarrow> pyval \<Rightarrow> dataframe" where
  "pd_DataFrame_cell col v = \<lparr>df_columns = [col], df_index = [PInt 0], df_data = [[v]]\<rparr>"

text \<open>\<open>df.set_index(c, inplace=True)\<close>: column \<open>c\<close> becomes the index; \<open>KeyError\<close> without it.\<close>

definition set_index :: "string \<Rightarrow> dataframe \<Rightarrow> exn + dataframe" where
  "set_index c df =
     (if c \<notin> set (df_columns df) then Inl KeyError
      else Inr
        \<lparr>df_columns = filter (\<lambda>k. k \<noteq> c) (df_columns df),
         df_index =
           map (\<lambda>r. case map_of (zip (df_columns df) r) c of Some v \<Rightarrow> v | None \<Rightarrow> PNone)
             (df_data df),
         df_data =
           map (\<lambda>r. map snd (filter (\<lambda>kv. fst kv \<noteq> c) (zip (df_columns df) r)))
             (df_data df)\<rparr>)"

text \<open>\<open>df[c] = v\<close> for a scalar \<open>v\<close>: the column is overwritten, or appended when new.\<close>

definition set_column :: "string \<Rightarrow> pyval \<Rightarrow> dataframe \<Rightarrow> dataframe" where
  "set_column c v df =
     (if c \<in> set (df_columns df)
      then df\<lparr>df_data :=
        map (\<lambda>r. map (\<lambda>kv. if fst kv = c then v else snd kv) (zip (df_columns df) r))
          (df_data df)\<rparr>
      else df\<lparr>df_columns := df_columns df @ [c], df_data := map (\<lambda>r. r @ [v]) (df_data df)\<rparr>)"

text \<open>\<open>df[cols]\<close>: the listed columns in the listed order; \<open>KeyError\<close> when one is missing.\<close>

definition select_columns :: "string list \<Rightarrow> dataframe \<Rightarrow> exn + dataframe" where
  "select_columns cols df =
     (if \<not> set cols \<subseteq> set (df_columns df) then Inl KeyError
      else Inr
        \<lparr>df_columns = cols,
         df_index = df_index df,
         df_data =
           map (\<lambda>r. map (\<lambda>c. case map_of (zip (df_columns df) r) c of
                                  Some v \<Rightarrow> v | None \<Rightarrow> PNone) cols)
             (df_data df)\<rparr>)"

text \<open>\<open>df.empty\<close>: some axis has length zero.\<close>

definition df_empty :: "dataframe \<Rightarrow> bool" where
  "df_empty df \<longleftrightarrow> df_columns df = [] \<or> df_index df = []"

section \<open>Canonical rows and the matrix builder (\<open>inventory_formatter.py\<close>)\<close>

text \<open>
  The row every backend emits. The field \<open>size\<close> of the source is \<open>size_tok\<close> here.
\<close>

record canonical_row =
  style :: string
  partId :: string
  color :: string
  size_tok :: string
  description :: string
  warehouseId :: string
  warehouse :: string
  qty :: int
  totalAvailable :: "int option"
  price :: "pyfloat option"

text \<open>
  \<open>get_size_price\<close>. The entries of \<open>base_prices\<close> and the default are written as \<open>:.2f\<close>
  renders them; the sizes it is called with are already upper case.
\<close>

definition base_prices :: "(string \<times> string) list" where
  "base_prices =
     [(''S'', ''37.26''), (''M'', ''37.26''), (''L'', ''37.26''), (''XL'', ''37.26''),
      (''LT'', ''37.26''), (''XLT'', ''37.26''), (''2XLT'', ''38.26''),
      (''3XLT'', ''40.26''), (''4XLT'', ''41.26'')]"

definition get_size_price ::
    "builtins \<Rightarrow> string \<Rightarrow> (string \<times> pyfloat) list option \<Rightarrow> string" where
  "get_size_price rt size0 pricing_data =
     (case (case pricing_data of None \<Rightarrow> None | Some d \<Rightarrow> map_of d size0) of
        Some p \<Rightarrow> py_format_2f rt p
      | None \<Rightarrow>
          (case map_of base_prices (upper size0) of Some s \<Rightarrow> s | None \<Rightarrow> ''37.26''))"

text \<open>
  The per-style accumulator of the grouping loop: the set \<open>sizes\<close> (kept in insertion
  order; Python leaves the iteration order of a set open, and it matters only between
  sizes whose sort keys are equal), the dict \<open>warehouses\<close> from warehouse name to the dict
  from size to quantity, and the two entries the loop never writes.
\<close>

record product_data =
  sizes :: "string list"
  warehouses :: "(string \<times> (string \<times> int) list) list"
  case_size :: pyval
  pricing :: "(string \<times> pyval) list"

definition new_product_data :: product_data where
  "new_product_data = \<lparr>sizes = [], warehouses = [], case_size = PNone, pricing = []\<rparr>"

definition set_add :: "string \<Rightarrow> string list \<Rightarrow> string list" where
  "set_add x xs = (if x \<in> set xs then xs else xs @ [x])"

text \<open>\<open>(row.get('warehouse') or '').strip() or f"Warehouse {warehouse_id}"\<close>.\<close>

definition warehouse_name_of :: "canonical_row \<Rightarrow> string" where
  "warehouse_name_of row =
     (if strip (warehouse row) \<noteq> [] then strip (warehouse row)
      else ''Warehouse '' @ warehouseId row)"

text \<open>The body of the grouping loop on the entry \<open>products[style]\<close>.\<close>

definition record_row :: "canonical_row \<Rightarrow> product_data \<Rightarrow> product_data" where
  "record_row row p =
     (let size1 = upper (size_tok row);
          warehouse_name = warehouse_name_of row;
          qty1 = (if qty row \<noteq> 0 then qty row else 0);
          p1 = (if size1 \<noteq> [] then p\<lparr>sizes := set_add size1 (sizes p)\<rparr> else p);
          p2 = (if warehouse_name \<notin> fst ` set (warehouses p1)
                then p1\<lparr>warehouses := warehouses p1 @ [(warehouse_name, [])]\<rparr> else p1)
      in p2\<lparr>warehouses :=
            AList.map_entry warehouse_name (AList.update size1 qty1) (warehouses p2)\<rparr>)"

fun group_rows ::
    "(string \<times> product_data) list \<Rightarrow> canonical_row list \<Rightarrow> (string \<times> product_data) list" where
  "group_rows products [] = products"
| "group_rows products (row # rest) =
     group_rows
       (AList.map_entry (style row) (record_row row)
          (if style row \<notin> fst ` set products
           then products @ [(style row, new_product_data)] else products))
       rest"

text \<open>
  \<open>sorted(list(sizes), key=_size_sort_key)\<close>: the keys are computed first, one per element
  and in order (the first that raises ends the call), then the elements are sorted
  stably by key.
\<close>

fun size_keys :: "string list \<Rightarrow> exn + (int \<times> string) list" where
  "size_keys [] = Inr []"
| "size_keys (x # xs) =
     (case size_sort_key x of
        Inl e \<Rightarrow> Inl e
      | Inr k \<Rightarrow> (case size_keys xs of Inl e \<Rightarrow> Inl e | Inr ks \<Rightarrow> Inr (k # ks)))"

definition sorted_sizes :: "string list \<Rightarrow> exn + string list" where
  "sorted_sizes xs =
     (case size_keys xs of
        Inl e \<Rightarrow> Inl e
      | Inr ks \<Rightarrow> Inr (map snd (sort_key fst (zip ks xs))))"

definition known_order :: "string list" where
  "known_order =
     [''Dallas, TX'', ''Cincinnati, OH'', ''Richmond, VA'', ''Jacksonville, FL'',
      ''Phoenix, AZ'', ''Reno, NV'', ''Minneapolis, MN'', ''Robbinsville, NJ'',
      ''Seattle, WA'']"

definition warehouse_order_of :: "string list \<Rightarrow> string list" where
  "warehouse_order_of present =
     filter (\<lambda>w. w \<in> set present) known_order
       @ sort (filter (\<lambda>w. w \<notin> set known_order) present)"

text \<open>
  The quantity the inner loop reads:
  \<open>product_data['warehouses'][warehouse].get(size, 0)\<close>, and 0 for an absent warehouse.
\<close>

definition stock_qty :: "(string \<times> (string \<times> int) list) list \<Rightarrow> string \<Rightarrow> string \<Rightarrow> int" where
  "stock_qty whs w s =
     (case map_of whs w of
        None \<Rightarrow> 0
      | Some m \<Rightarrow> (case map_of m s of None \<Rightarrow> 0 | Some q \<Rightarrow> q))"

text \<open>
  The loop over \<open>all_sizes\<close> for one warehouse: it fills \<open>warehouse_row\<close> and adds each
  quantity to \<open>total_inventory\<close>. (\<open>has_inventory\<close> is assigned and never read.)
\<close>

fun size_loop ::
    "(string \<times> (string \<times> int) list) list \<Rightarrow> string \<Rightarrow> string list \<Rightarrow>
     (string \<times> pyval) list \<times> (string \<times> int) list \<Rightarrow>
     (string \<times> pyval) list \<times> (string \<times> int) list" where
  "size_loop whs w [] (warehouse_row, total_inventory) = (warehouse_row, total_inventory)"
| "size_loop whs w (s # rest) (warehouse_row, total_inventory) =
     size_loop whs w rest
       (AList.update s (PInt (stock_qty whs w s)) warehouse_row,
        AList.map_entry s (\<lambda>t. t + stock_qty whs w s) total_inventory)"

fun warehouse_loop ::
    "(string \<times> (string \<times> int) list) list \<Rightarrow> string list \<Rightarrow> string list \<Rightarrow>
     (string \<times> pyval) list list \<times> (string \<times> int) list \<Rightarrow>
     (string \<times> pyval) list list \<times> (string \<times> int) list" where
  "warehouse_loop whs all_sizes [] (table_data, total_inventory) = (table_data, total_inventory)"
| "warehouse_loop whs all_sizes (w # rest) (table_data, total_inventory) =
     (case size_loop whs w all_sizes ([('''', PStr w)], total_inventory) of
        (warehouse_row, total1) \<Rightarrow>
          warehouse_loop whs all_sizes rest (table_data @ [warehouse_row], total1))"

text \<open>\<open>total_inventory[size]\<close> for the Total row; every size is a key of it.\<close>

definition total_of :: "(string \<times> int) list \<Rightarrow> string \<Rightarrow> pyval" where
  "total_of total_inventory s =
     (case map_of total_inventory s of Some t \<Rightarrow> PInt t | None \<Rightarrow> PNone)"

text \<open>
  \<open>format_inventory_table\<close>. \<open>product_data.get('case_size', 12)\<close> finds the key
  \<open>'case_size'\<close>, which the grouping loop has set to \<open>None\<close>.
\<close>

definition format_inventory_table ::
    "builtins \<Rightarrow> canonical_row list \<Rightarrow> (string \<times> pyfloat) list option \<Rightarrow> exn + dataframe" where
  "format_inventory_table rt inventory_rows pricing_data =
     (if inventory_rows = [] then Inr pd_DataFrame_empty
      else
        (case group_rows [] inventory_rows of
           [] \<Rightarrow> Inr pd_DataFrame_empty
         | (style1, product_data) # others \<Rightarrow>
             (case sorted_sizes (sizes product_data) of
                Inl e \<Rightarrow> Inl e
              | Inr all_sizes \<Rightarrow>
                  if all_sizes = []
                  then Inr (pd_DataFrame_cell ''Message'' (PStr ''No size data available''))
                  else
                    (let pricing_row =
                           dict_fill (\<lambda>s. PStr (get_size_price rt s pricing_data)) all_sizes
                             [('''', PStr ''Price: $'')];
                         case_size_row =
                           dict_fill (\<lambda>s. case_size product_data) all_sizes
                             [('''', PStr ''Case Size'')];
                         warehouse_header =
                           dict_fill PStr all_sizes [('''', PStr ''Warehouse'')];
                         present = map fst (warehouses product_data);
                         warehouse_order = warehouse_order_of present;
                         total0 = dict_fill (\<lambda>s. 0) all_sizes []
                     in case warehouse_loop (warehouses product_data) all_sizes warehouse_order
                               ([pricing_row, case_size_row, warehouse_header], total0) of
                          (table_data, total_inventory) \<Rightarrow>
                            (let total_row =
                                   dict_fill (total_of total_inventory) all_sizes
                                     [('''', PStr ''Total Inventory'')]
                             in set_index '''' (pd_DataFrame (table_data @ [total_row])))))))"

text \<open>\<open>create_inventory_display_table\<close>: an empty table becomes a one-cell message.\<close>

definition create_inventory_display_table ::
    "builtins \<Rightarrow> canonical_row list \<Rightarrow> string \<Rightarrow> exn + dataframe" where
  "create_inventory_display_table rt inventory_rows style_name =
     (case format_inventory_table rt inventory_rows None of
        Inl e \<Rightarrow> Inl e
      | Inr df \<Rightarrow>
          if df_empty df
          then Inr (pd_DataFrame_cell ''Message'' (PStr ''No inventory data available''))
          else Inr df)"

text \<open>
  Words for stating what the builder does. The builder shows one product: the rows that
  carry the style of the first row. Its warehouse rows sit between the three heading rows
  and the Total row, and a cell is found by warehouse label and size column.
\<close>

definition style_group :: "canonical_row list \<Rightarrow> canonical_row list" where
  "style_group rows = filter (\<lambda>r. style r = style (hd rows)) rows"

definition warehouse_part :: "dataframe \<Rightarrow> (pyval \<times> pyval list) list" where
  "warehouse_part df = butlast (drop 3 (zip (df_index df) (df_data df)))"

definition matrix_cell :: "dataframe \<Rightarrow> string \<Rightarrow> string \<Rightarrow> pyval option" where
  "matrix_cell df w s =
     (case map_of (warehouse_part df) (PStr w) of
        None \<Rightarrow> None
      | Some cells \<Rightarrow> map_of (zip (df_columns df) cells) s)"

definition total_cell :: "dataframe \<Rightarrow> string \<Rightarrow> pyval option" where
  "total_cell df s = map_of (zip (df_columns df) (last (df_data df))) s"

definition cell_int :: "pyval option \<Rightarrow> int" where
  "cell_int c = (case c of Some (PInt n) \<Rightarrow> n | _ \<Rightarrow> 0)"

text \<open>
  What the grouping loop leaves under the first style, and the table the builder is
  shown below to return from it.
\<close>

definition grouped :: "canonical_row list \<Rightarrow> product_data" where
  "grouped rows = foldl (\<lambda>p r. record_row r p) new_product_data (style_group rows)"

definition matrix_of ::
    "builtins \<Rightarrow> (string \<times> pyfloat) list option \<Rightarrow> (string \<times> (string \<times> int) list) list \<Rightarrow>
     string list \<Rightarrow> dataframe" where
  "matrix_of rt pricing_data whs all_sizes =
     (let ws = warehouse_order_of (map fst whs) in
      \<lparr>df_columns = all_sizes,
       df_index =
         [PStr ''Price: $'', PStr ''Case Size'', PStr ''Warehouse'']
           @ map PStr ws @ [PStr ''Total Inventory''],
       df_data =
         [map (\<lambda>s. PStr (get_size_price rt s pricing_data)) all_sizes,
          map (\<lambda>s. PNone) all_sizes,
          map PStr all_sizes]
           @ map (\<lambda>w. map (\<lambda>s. PInt (stock_qty whs w s)) all_sizes) ws
           @ [map (\<lambda>s. PInt (sum_list (map (\<lambda>w. stock_qty whs w s) ws))) all_sizes]\<rparr>)"

section \<open>Sample inputs\<close>

text \<open>
  Concrete built-ins and a row with the fields the builder reads, for the examples that
  accompany the theorems.
\<close>

definition sample_builtins :: builtins where
  "sample_builtins =
     \<lparr>py_float = (\<lambda>v. case v of PInt n \<Rightarrow> Some (Finite n 0) | PFloat x \<Rightarrow> Some x | _ \<Rightarrow> None),
      py_repr = (\<lambda>v. ''?''),
      py_format_2f = (\<lambda>x. ''0.00'')\<rparr>"

definition inventory_row :: "string \<Rightarrow> string \<Rightarrow> string \<Rightarrow> string \<Rightarrow> int \<Rightarrow> canonical_row" where
  "inventory_row st sz wid wh q =
     \<lparr>style = st, partId = '''', color = '''', size_tok = sz, description = '''',
      warehouseId = wid, warehouse = wh, qty = q, totalAvailable = None, price = None\<rparr>"

section \<open>The flat export (\<open>exporter.rows_to_dataframe\<close>)\<close>

text \<open>
  A row handed to the exporter is a dict from field name to value. The list \<open>cols\<close> of the
  source; the loop \<open>for c in cols: if c not in df.columns: df[c] = None\<close>; and the
  selection \<open>df[cols]\<close>.
\<close>

definition cols :: "string list" where
  "cols =
     [''style'', ''partId'', ''color'', ''size'', ''description'', ''warehouseId'',
      ''warehouse'', ''qty'', ''totalAvailable'', ''price'']"

fun add_missing :: "string list \<Rightarrow> dataframe \<Rightarrow> dataframe" where
  "add_missing [] df = df"
| "add_missing (c # cs) df =
     add_missing cs (if c \<notin> set (df_columns df) then set_column c PNone df else df)"

definition rows_to_dataframe :: "(string \<times> pyval) list list \<Rightarrow> exn + dataframe" where
  "rows_to_dataframe rows = select_columns cols (add_missing cols (pd_DataFrame rows))"

text \<open>
  The cell the export shows for a row and a column: the row's value; \<open>NaN\<close> when the row
  lacks the field and another row has it; \<open>None\<close> when no row has it. These are the
  values the table is built from; the dtype pandas then stores a column in (an integer
  beside a \<open>NaN\<close> as a float) is outside the model.
\<close>

definition export_cell :: "(string \<times> pyval) list list \<Rightarrow> (string \<times> pyval) list \<Rightarrow> string \<Rightarrow> pyval" where
  "export_cell rows r c =
     (case map_of r c of
        Some v \<Rightarrow> v
      | None \<Rightarrow> if c \<in> set (concat (map (map fst) rows)) then PFloat NaN else PNone)"

section \<open>Dynamic values: the operations of Python the parser applies to JSON\<close>

text \<open>
  \<open>json.loads\<close> gives \<open>None\<close>, \<open>bool\<close>, \<open>int\<close>, \<open>float\<close>, \<open>str\<close>, \<open>list\<close> and \<open>dict\<close>
  (with \<open>str\<close> keys): the type \<open>pyval\<close>. An operation that raises returns \<open>Inl\<close> of the
  exception; \<open>and_then\<close> runs the next step on a result and passes an exception on.
\<close>

definition and_then :: "exn + 'a \<Rightarrow> ('a \<Rightarrow> exn + 'b) \<Rightarrow> exn + 'b" where
  "and_then m f = (case m of Inl e \<Rightarrow> Inl e | Inr x \<Rightarrow> f x)"

text \<open>Truth value of an object, and \<open>a or b\<close> on objects already evaluated.\<close>

fun truthy :: "pyval \<Rightarrow> bool" where
  "truthy PNone = False"
| "truthy (PBool b) = b"
| "truthy (PInt n) = (n \<noteq> 0)"
| "truthy (PFloat (Finite m e)) = (m \<noteq> 0)"
| "truthy (PFloat NaN) = True"
| "truthy (PFloat (Infinity neg)) = True"
| "truthy (PStr s) = (s \<noteq> [])"
| "truthy (PList xs) = (xs \<noteq> [])"
| "truthy (PDict kvs) = (kvs \<noteq> [])"

definition py_or :: "pyval \<Rightarrow> pyval \<Rightarrow> pyval" where
  "py_or a b = (if truthy a then a else b)"

text \<open>\<open>x.get(k, default)\<close>: only a dict has the method.\<close>

fun dict_get :: "pyval \<Rightarrow> string \<Rightarrow> pyval \<Rightarrow> exn + pyval" where
  "dict_get (PDict kvs) k dflt = Inr (case map_of kvs k of Some v \<Rightarrow> v | None \<Rightarrow> dflt)"
| "dict_get x k dflt = Inl AttributeError"

text \<open>\<open>x.items()\<close> and \<open>x.values()\<close>.\<close>

fun dict_items :: "pyval \<Rightarrow> exn + (string \<times> pyval) list" where
  "dict_items (PDict kvs) = Inr kvs"
| "dict_items x = Inl AttributeError"

text \<open>
  \<open>for x in obj\<close>: the elements of a list, the keys of a dict, the characters of a string;
  anything else is not iterable.
\<close>

fun py_iter :: "pyval \<Rightarrow> exn + pyval list" where
  "py_iter (PList xs) = Inr xs"
| "py_iter (PDict kvs) = Inr (map (\<lambda>kv. PStr (fst kv)) kvs)"
| "py_iter (PStr s) = Inr (map (\<lambda>c. PStr [c]) s)"
| "py_iter x = Inl TypeError"

text \<open>Decimal text of an integer, as \<open>str(n)\<close> and an f-string give it.\<close>

function show_nat :: "nat \<Rightarrow> string" where
  "show_nat n =
     (if n < 10 then [''0123456789'' ! n]
      else show_nat (n div 10) @ [''0123456789'' ! (n mod 10)])"
  by pat_completeness auto
termination
  by (relation "measure id") auto

definition show_int :: "int \<Rightarrow> string" where
  "show_int i = (if i < 0 then CHR ''-'' # show_nat (nat (- i)) else show_nat (nat i))"

text \<open>\<open>str(x)\<close>; the text of a float or of a container is left to \<open>py_repr\<close>.\<close>

definition py_str :: "builtins \<Rightarrow> pyval \<Rightarrow> string" where
  "py_str rt v =
     (case v of
        PStr s \<Rightarrow> s
      | PNone \<Rightarrow> ''None''
      | PBool b \<Rightarrow> (if b then ''True'' else ''False'')
      | PInt n \<Rightarrow> show_int n
      | _ \<Rightarrow> py_repr rt v)"

text \<open>
  \<open>int(x)\<close>. Around an ASCII text \<open>int\<close> passes over tab, line feed, vertical tab, form feed,
  carriage return and space (the separators \<open>0x1C\<close> to \<open>0x1F\<close>, which \<open>str.strip\<close> removes,
  it rejects); what is left is an optional sign and decimal digits, single underscores
  allowed between digits, and at most 4300 digits (the interpreter's default limit). A
  finite float is truncated toward zero; \<open>bool\<close> is a subclass of \<open>int\<close>.
\<close>

definition int_space :: "char \<Rightarrow> bool" where
  "int_space c \<longleftrightarrow> (let n = (of_char c :: nat) in (9 \<le> n \<and> n \<le> 13) \<or> n = 32)"

fun int_digits :: "int \<Rightarrow> string \<Rightarrow> int option" where
  "int_digits acc [] = Some acc"
| "int_digits acc (c # cs) =
     (if isdigit c then int_digits (acc * 10 + digit_val c) cs
      else if c = CHR ''_'' then
        (case cs of
           [] \<Rightarrow> None
         | d # ds \<Rightarrow> if isdigit d then int_digits (acc * 10 + digit_val d) ds else None)
      else None)"

definition int_literal :: "string \<Rightarrow> int option" where
  "int_literal s =
     (case s of
        [] \<Rightarrow> None
      | c # cs \<Rightarrow> if isdigit c then int_digits (digit_val c) cs else None)"

definition int_of_text :: "string \<Rightarrow> int option" where
  "int_of_text s =
     (let t = rev (dropWhile int_space (rev (dropWhile int_space s))) in
      if 4300 < length (filter isdigit t) then None
      else
        (case t of
           [] \<Rightarrow> None
         | c # cs \<Rightarrow>
             if c = CHR ''-'' then map_option uminus (int_literal cs)
             else if c = CHR ''+'' then int_literal cs
             else int_literal (c # cs)))"

definition truncate_float :: "int \<Rightarrow> int \<Rightarrow> int" where
  "truncate_float m e =
     (if 0 \<le> e then m * 2 ^ nat e
      else if 0 \<le> m then m div 2 ^ nat (- e)
      else - ((- m) div 2 ^ nat (- e)))"

fun py_int :: "pyval \<Rightarrow> exn + int" where
  "py_int (PInt n) = Inr n"
| "py_int (PBool b) = Inr (if b then 1 else 0)"
| "py_int (PFloat (Finite m e)) = Inr (truncate_float m e)"
| "py_int (PFloat NaN) = Inl ValueError"
| "py_int (PFloat (Infinity neg)) = Inl OverflowError"
| "py_int (PStr s) = (case int_of_text s of Some n \<Rightarrow> Inr n | None \<Rightarrow> Inl ValueError)"
| "py_int PNone = Inl TypeError"
| "py_int (PList xs) = Inl TypeError"
| "py_int (PDict kvs) = Inl TypeError"

section \<open>The parser (\<open>webjson.parse_inventory_json\<close>)\<close>

text \<open>
  The dict comprehension \<open>warehouses\<close> (\<open>warehouse_map\<close> here): for each \<open>w\<close> the key
  \<open>str(w.get("code"))\<close> and the value
  \<open>w.get("shortName") or w.get("name") or str(w.get("code"))\<close>.
\<close>

fun warehouse_names ::
    "builtins \<Rightarrow> pyval list \<Rightarrow> (string \<times> pyval) list \<Rightarrow> exn + (string \<times> pyval) list" where
  "warehouse_names rt [] warehouse_map = Inr warehouse_map"
| "warehouse_names rt (w # ws) warehouse_map =
     and_then (dict_get w ''code'' PNone) (\<lambda>code.
     and_then (dict_get w ''shortName'' PNone) (\<lambda>short_name.
     and_then (dict_get w ''name'' PNone) (\<lambda>name.
       warehouse_names rt ws
         (AList.update (py_str rt code)
            (py_or short_name (py_or name (PStr (py_str rt code)))) warehouse_map))))"

text \<open>
  \<open>extract_price\<close>. \<open>price_of\<close> is the body shared by the two loops: the entry's
  \<open>formattedValue\<close>, when truthy, through \<open>float\<close>; \<open>None\<close> means the loop goes on. On a
  truthy \<open>price_map\<close> that is not a dict, \<open>key in price_map\<close>, \<open>price_map[key]\<close> or
  \<open>price_map.values()\<close> raises.
\<close>

definition price_of :: "builtins \<Rightarrow> pyval \<Rightarrow> exn + pyfloat option" where
  "price_of rt v =
     and_then (dict_get v ''formattedValue'' PNone) (\<lambda>fv.
       Inr (if truthy fv then py_float rt fv else None))"

fun price_by_key ::
    "builtins \<Rightarrow> (string \<times> pyval) list \<Rightarrow> string list \<Rightarrow> exn + pyfloat option" where
  "price_by_key rt kvs [] = Inr None"
| "price_by_key rt kvs (key # keys) =
     (case map_of kvs key of
        None \<Rightarrow> price_by_key rt kvs keys
      | Some v \<Rightarrow>
          and_then (price_of rt v) (\<lambda>p.
            case p of Some x \<Rightarrow> Inr (Some x) | None \<Rightarrow> price_by_key rt kvs keys))"

fun price_first :: "builtins \<Rightarrow> pyval list \<Rightarrow> exn + pyfloat option" where
  "price_first rt [] = Inr None"
| "price_first rt (v # vs) =
     and_then (price_of rt v) (\<lambda>p.
       case p of Some x \<Rightarrow> Inr (Some x) | None \<Rightarrow> price_first rt vs)"

definition is_substring :: "string \<Rightarrow> string \<Rightarrow> bool" where
  "is_substring k s = list_ex (\<lambda>i. take (length k) (drop i s) = k) [0..<Suc (length s)]"

definition extract_price :: "builtins \<Rightarrow> pyval \<Rightarrow> exn + pyfloat option" where
  "extract_price rt price_map =
     (if \<not> truthy price_map then Inr None
      else
        (case price_map of
           PDict kvs \<Rightarrow>
             and_then (price_by_key rt kvs [''3'', ''UPG'']) (\<lambda>p.
               case p of Some x \<Rightarrow> Inr (Some x) | None \<Rightarrow> price_first rt (map snd kvs))
         | PList xs \<Rightarrow>
             if PStr ''3'' \<in> set xs \<or> PStr ''UPG'' \<in> set xs then Inl TypeError
             else Inl AttributeError
         | PStr s \<Rightarrow>
             if is_substring ''3'' s \<or> is_substring ''UPG'' s then Inl TypeError
             else Inl AttributeError
         | _ \<Rightarrow> Inl TypeError))"

text \<open>
  The inner loop over \<open>variantOptionQualifiers\<close>: the \<open>value\<close> of the first qualifier named
  \<open>size\<close>, else \<open>None\<close>.
\<close>

fun find_size :: "pyval list \<Rightarrow> exn + pyval" where
  "find_size [] = Inr PNone"
| "find_size (q # qs) =
     and_then (dict_get q ''qualifier'' PNone) (\<lambda>name.
       if name = PStr ''size'' then dict_get q ''value'' PNone else find_size qs)"

text \<open>
  The row the parser appends, a dict with the keys in the order of the source.
  \<open>product\<close> is a dict by the time a row is built; \<open>whse_id\<close> is a key of the stock map,
  so \<open>str(whse_id)\<close> is the key itself.
\<close>

definition product_get :: "pyval \<Rightarrow> string \<Rightarrow> pyval" where
  "product_get product k =
     (case product of
        PDict kvs \<Rightarrow> (case map_of kvs k of Some v \<Rightarrow> v | None \<Rightarrow> PNone)
      | _ \<Rightarrow> PNone)"

definition make_row ::
    "string \<Rightarrow> pyval \<Rightarrow> (string \<times> pyval) list \<Rightarrow> string \<Rightarrow> pyval \<Rightarrow> pyfloat option \<Rightarrow>
     string \<Rightarrow> int \<Rightarrow> pyval" where
  "make_row slug product warehouse_map color_from_slug size1 price1 whse_id qty_int =
     PDict
       [(''style'',
           py_or (PStr slug)
             (py_or (product_get product ''baseProduct'')
                (py_or (product_get product ''code'') (PStr '''')))),
        (''partId'', PStr ''''),
        (''color'', PStr color_from_slug),
        (''size'', py_or size1 (PStr '''')),
        (''description'', py_or (product_get product ''name'') (PStr '''')),
        (''warehouseId'', PStr whse_id),
        (''warehouse'',
           (case map_of warehouse_map whse_id of Some v \<Rightarrow> v | None \<Rightarrow> PStr '''')),
        (''qty'', PInt qty_int),
        (''totalAvailable'', PNone),
        (''price'', (case price1 of Some x \<Rightarrow> PFloat x | None \<Rightarrow> PNone))]"

text \<open>
  The loop over \<open>stock_map.items()\<close>: an entry whose quantity \<open>int\<close> rejects is passed over
  (\<open>continue\<close>); every other entry appends one row.
\<close>

fun stock_loop ::
    "(string \<Rightarrow> int \<Rightarrow> pyval) \<Rightarrow> (string \<times> pyval) list \<Rightarrow> pyval list \<Rightarrow> pyval list" where
  "stock_loop mk [] rows = rows"
| "stock_loop mk ((whse_id, qty1) # rest) rows =
     (case py_int qty1 of
        Inl e \<Rightarrow> stock_loop mk rest rows
      | Inr qty_int \<Rightarrow> stock_loop mk rest (rows @ [mk whse_id qty_int]))"

text \<open>The body of the loop over \<open>variant_options\<close>, and the loop.\<close>

definition option_rows ::
    "builtins \<Rightarrow> string \<Rightarrow> pyval \<Rightarrow> (string \<times> pyval) list \<Rightarrow> string \<Rightarrow> pyval \<Rightarrow>
     pyval list \<Rightarrow> exn + pyval list" where
  "option_rows rt slug product warehouse_map color_from_slug opt rows =
     and_then (dict_get opt ''variantOptionQualifiers'' (PList [])) (\<lambda>qualifiers.
     and_then (py_iter qualifiers) (\<lambda>qs.
     and_then (find_size qs) (\<lambda>size1.
     and_then (dict_get opt ''priceDataMap'' PNone) (\<lambda>price_map.
     and_then (extract_price rt price_map) (\<lambda>price1.
     and_then (dict_get opt ''stockLevelsMap'' (PDict [])) (\<lambda>levels.
     and_then (if truthy levels then Inr levels
               else dict_get opt ''availableStockMap'' (PDict [])) (\<lambda>stock_map.
     and_then (dict_items stock_map) (\<lambda>items.
       Inr (stock_loop (make_row slug product warehouse_map color_from_slug size1 price1)
              items rows)))))))))"

fun options_loop ::
    "builtins \<Rightarrow> string \<Rightarrow> pyval \<Rightarrow> (string \<times> pyval) list \<Rightarrow> string \<Rightarrow> pyval list \<Rightarrow>
     pyval list \<Rightarrow> exn + pyval list" where
  "options_loop rt slug product warehouse_map color_from_slug [] rows = Inr rows"
| "options_loop rt slug product warehouse_map color_from_slug (opt # opts) rows =
     and_then (option_rows rt slug product warehouse_map color_from_slug opt rows)
       (options_loop rt slug product warehouse_map color_from_slug opts)"

text \<open>
  \<open>slug.split("_", 1)\<close>: the part before the first underscore, and the part after it.
\<close>

definition before_underscore :: "string \<Rightarrow> string" where
  "before_underscore slug = takeWhile (\<lambda>c. c \<noteq> CHR ''_'') slug"

definition after_underscore :: "string \<Rightarrow> string" where
  "after_underscore slug = tl (dropWhile (\<lambda>c. c \<noteq> CHR ''_'') slug)"

text \<open>\<open>parse_inventory_json\<close>; the envelope it returns is the dict \<open>{"rows": rows}\<close>.\<close>

definition parse_inventory_json :: "builtins \<Rightarrow> pyval \<Rightarrow> string \<Rightarrow> exn + pyval" where
  "parse_inventory_json rt data slug =
     and_then (dict_get data ''product'' (PDict [])) (\<lambda>product.
     and_then (dict_get data ''warehouses'' (PList [])) (\<lambda>warehouse_list.
     and_then (py_iter warehouse_list) (\<lambda>ws.
     and_then (warehouse_names rt ws []) (\<lambda>warehouse_map.
     and_then (dict_get product ''variantOptions'' (PList [])) (\<lambda>variant_options.
     and_then (py_iter variant_options) (\<lambda>opts.
     and_then
       (options_loop rt slug product warehouse_map
          (if slug \<noteq> [] \<and> CHR ''_'' \<in> set slug then after_underscore slug else [])
          opts [])
       (\<lambda>rows. Inr (PDict [(''rows'', PList rows)]))))))))"

section \<open>The fetch (\<open>webjson.fetch_inventory_json\<close>)\<close>

text \<open>
  What \<open>requests.get\<close> gives: it raises (no connection, timeout), or returns a response,
  of which the code reads the status, the headers, the text, and the body as JSON
  (\<open>None\<close> where \<open>resp.json()\<close> raises); \<open>resp.text\<close> is the field \<open>resp_text\<close>. The network is a function from the URL and the
  timeout to that outcome; the headers are the same on both requests of one call, and
  that they are built never raises (the one step that could is inside \<open>try\<close>).
\<close>

record response =
  status_code :: int
  headers :: "(string \<times> string) list"
  resp_text :: string
  json_body :: "pyval option"

datatype http_result = Raised exn | Response response

text \<open>\<open>resp.raise_for_status()\<close> raises for a status from 400 to 599.\<close>

definition raise_for_status :: "response \<Rightarrow> exn + unit" where
  "raise_for_status resp =
     (if 400 \<le> status_code resp \<and> status_code resp < 600 then Inl HTTPError else Inr ())"

definition resp_json :: "response \<Rightarrow> exn + pyval" where
  "resp_json resp = (case json_body resp of None \<Rightarrow> Inl JSONDecodeError | Some d \<Rightarrow> Inr d)"

definition inventory_url :: "string \<Rightarrow> string" where
  "inventory_url slug =
     ''https://www.sanmar.com/p/'' @ slug @ ''/checkInventoryJson?pantWaistSize=''"

text \<open>The body of each \<open>try\<close>: status check, decoding, parsing.\<close>

definition parse_response :: "builtins \<Rightarrow> response \<Rightarrow> string \<Rightarrow> exn + pyval" where
  "parse_response rt resp slug =
     and_then (raise_for_status resp) (\<lambda>u.
     and_then (resp_json resp) (\<lambda>data. parse_inventory_json rt data slug))"

text \<open>
  \<open>", ".join(urls)\<close>, the snippet \<open>resp.text[:300].replace("\n", " ")\<close>, the header
  \<open>resp.headers.get("Content-Type", "")\<close>, and the envelope. \<open>resp.headers\<close> is the
  case-insensitive dict of \<open>requests\<close>: a name is looked up by its lower-case form
  (\<open>str.lower()\<close>, on ASCII text).
\<close>

definition lower_char :: "char \<Rightarrow> char" where
  "lower_char c =
     (if CHR ''A'' \<le> c \<and> c \<le> CHR ''Z'' then char_of (of_char c + (32::nat)) else c)"

definition lower :: "string \<Rightarrow> string" where
  "lower s = map lower_char s"

fun header_get :: "(string \<times> string) list \<Rightarrow> string \<Rightarrow> string \<Rightarrow> string" where
  "header_get [] name dflt = dflt"
| "header_get ((k, v) # rest) name dflt =
     (if lower k = lower name then v else header_get rest name dflt)"

fun join_urls :: "string list \<Rightarrow> string" where
  "join_urls [] = []"
| "join_urls [u] = u"
| "join_urls (u # v # rest) = u @ '', '' @ join_urls (v # rest)"

definition snippet_of :: "response \<Rightarrow> string" where
  "snippet_of resp = map (\<lambda>c. if c = CHR 0x0A then CHR '' '' else c) (take 300 (resp_text resp))"

definition content_type_of :: "response \<Rightarrow> string" where
  "content_type_of resp = header_get (headers resp) ''Content-Type'' []"

definition error_message :: "string list \<Rightarrow> response \<Rightarrow> string" where
  "error_message attempted_urls resp =
     ''Non-JSON response. Tried: '' @ join_urls attempted_urls
       @ ''. Status '' @ show_int (status_code resp)
       @ '', content-type: '' @ content_type_of resp
       @ ''. First 300 chars: '' @ snippet_of resp"

definition error_envelope :: "string list \<Rightarrow> response \<Rightarrow> pyval" where
  "error_envelope attempted_urls resp =
     PDict [(''rows'', PList []), (''error'', PBool True),
            (''message'', PStr (error_message attempted_urls resp))]"

text \<open>
  \<open>fetch_inventory_json\<close>. The result is what the call returns or raises, paired with the
  URLs it has requested, in order. The first \<open>requests.get\<close> stands before the \<open>try\<close>;
  the second stands inside one, and \<open>locals().get("resp2", resp)\<close> keeps the first
  response when the second request itself raised.
\<close>

definition fetch_inventory_json ::
    "builtins \<Rightarrow> (string \<Rightarrow> int \<Rightarrow> http_result) \<Rightarrow> string \<Rightarrow> int \<Rightarrow> (exn + pyval) \<times> string list" where
  "fetch_inventory_json rt net slug timeout =
     (let url = inventory_url slug in
      case net url timeout of
        Raised e \<Rightarrow> (Inl e, [url])
      | Response resp \<Rightarrow>
          (case parse_response rt resp slug of
             Inr result \<Rightarrow> (Inr result, [url])
           | Inl e \<Rightarrow>
               (let base = (if CHR ''_'' \<in> set slug then before_underscore slug else slug) in
                if base \<noteq> [] \<and> base \<noteq> slug then
                  (let url_base = inventory_url base in
                   case net url_base timeout of
                     Raised e2 \<Rightarrow> (Inr (error_envelope [url, url_base] resp), [url, url_base])
                   | Response resp2 \<Rightarrow>
                       (case parse_response rt resp2 base of
                          Inr result \<Rightarrow> (Inr result, [url, url_base])
                        | Inl e2 \<Rightarrow>
                            (Inr (error_envelope [url, url_base] resp2), [url, url_base])))
                else (Inr (error_envelope [url] resp), [url]))))"

text \<open>
  The branch of \<open>cli.main\<close> for the web backend: with \<open>--json-file\<close> the saved payload is
  parsed and nothing is requested; without it the slug is fetched (default timeout 20).
\<close>

definition cli_webjson ::
    "builtins \<Rightarrow> (string \<Rightarrow> int \<Rightarrow> http_result) \<Rightarrow> pyval option \<Rightarrow> string \<Rightarrow>
     (exn + pyval) \<times> string list" where
  "cli_webjson rt net json_file style1 =
     (case json_file of
        Some data \<Rightarrow> (parse_inventory_json rt data style1, [])
      | None \<Rightarrow> fetch_inventory_json rt net style1 20)"

text \<open>
  Reading an envelope and a row as the callers do: \<open>res.get("rows", [])\<close>,
  \<open>res.get("error")\<close>, \<open>res.get("message")\<close> and \<open>row.get(field)\<close>.
\<close>

definition env_rows :: "pyval \<Rightarrow> pyval list" where
  "env_rows res =
     (case res of
        PDict kvs \<Rightarrow> (case map_of kvs ''rows'' of Some (PList rs) \<Rightarrow> rs | _ \<Rightarrow> [])
      | _ \<Rightarrow> [])"

definition env_get :: "pyval \<Rightarrow> string \<Rightarrow> pyval" where
  "env_get res k =
     (case res of
        PDict kvs \<Rightarrow> (case map_of kvs k of Some v \<Rightarrow> v | None \<Rightarrow> PNone)
      | _ \<Rightarrow> PNone)"

text \<open>
  The word of the specification for a quantity that gives no row: non-numeric. It is
  read on the JSON value alone: \<open>null\<close>, \<open>true\<close>, \<open>false\<close>, an array and an object are not
  numbers, nor are the tokens \<open>NaN\<close> and \<open>Infinity\<close> that \<open>json.loads\<close> accepts, nor is a
  text without any digit; an integer, a finite float and a text with a digit in it are
  not called non-numeric.
\<close>

fun non_numeric :: "pyval \<Rightarrow> bool" where
  "non_numeric PNone = True"
| "non_numeric (PBool b) = True"
| "non_numeric (PList xs) = True"
| "non_numeric (PDict kvs) = True"
| "non_numeric (PStr s) = (\<not> list_ex isdigit s)"
| "non_numeric (PFloat NaN) = True"
| "non_numeric (PFloat (Infinity neg)) = True"
| "non_numeric (PFloat (Finite m e)) = False"
| "non_numeric (PInt n) = False"

text \<open>
  The entries of a stock map that \<open>int\<close> accepts, with the integer each gives: what the
  loop over \<open>stock_map.items()\<close> is shown below to turn into rows.
\<close>

definition coerced :: "(string \<times> pyval) list \<Rightarrow> (string \<times> int) list" where
  "coerced items =
     concat (map (\<lambda>(whse_id, qty1).
       case py_int qty1 of Inr n \<Rightarrow> [(whse_id, n)] | Inl e \<Rightarrow> []) items)"

text \<open>
  The dashboard hands the rows of an envelope to the matrix builder. \<open>canonical\<close> reads a
  row dict as the record the builder is modelled on: a text field that holds a string
  gives that string, the quantity is the integer the parser stored, and a field the
  builder never reads in a way that matters here (\<open>totalAvailable\<close>) is left empty.
\<close>

definition text_field :: "pyval \<Rightarrow> string \<Rightarrow> string" where
  "text_field row k = (case env_get row k of PStr s \<Rightarrow> s | _ \<Rightarrow> [])"

definition canonical :: "pyval \<Rightarrow> canonical_row" where
  "canonical row =
     \<lparr>style = text_field row ''style'', partId = text_field row ''partId'',
      color = text_field row ''color'', size_tok = text_field row ''size'',
      description = text_field row ''description'',
      warehouseId = text_field row ''warehouseId'', warehouse = text_field row ''warehouse'',
      qty = (case env_get row ''qty'' of PInt n \<Rightarrow> n | _ \<Rightarrow> 0),
      totalAvailable = None,
      price = (case env_get row ''price'' of PFloat x \<Rightarrow> Some x | _ \<Rightarrow> None)\<rparr>"

text \<open>
  A row with the two fields the parser takes from the identifier written anew: \<open>style\<close>
  is the identifier and \<open>color\<close> the part after its first underscore (empty without
  one). It serves to compare the rows of one payload under two identifiers.
\<close>

definition color_of_slug :: "string \<Rightarrow> string" where
  "color_of_slug slug = (if slug \<noteq> [] \<and> CHR ''_'' \<in> set slug then after_underscore slug else [])"

definition restyle :: "string \<Rightarrow> pyval \<Rightarrow> pyval" where
  "restyle slug row =
     (case row of
        PDict kvs \<Rightarrow>
          PDict (AList.update ''color'' (PStr (color_of_slug slug))
                   (AList.update ''style'' (PStr slug) kvs))
      | _ \<Rightarrow> row)"

declare show_nat.simps [simp del]

section \<open>Sample responses and networks\<close>

text \<open>
  A payload with one size and four stock entries, two of them not numbers; a payload
  whose three stock entries are a negative number, \<open>true\<close> and the text \<open>7.0\<close>; a
  response that carries the first payload; an error page (the server sends the header
  name in lower case, as HTTP/2 does); a 300 whose body is JSON; and networks that
  answer every request with the error page, only the colour slug with it, raise on
  every request, answer every request with the payload, or answer every request with
  the 300.
\<close>

definition sample_payload :: pyval where
  "sample_payload =
     PDict
       [(''product'',
           PDict
             [(''code'', PStr ''60397''), (''name'', PStr ''Polo''),
              (''variantOptions'',
                 PList
                   [PDict
                      [(''variantOptionQualifiers'',
                          PList [PDict [(''qualifier'', PStr ''size''), (''value'', PStr ''M'')]]),
                       (''stockLevelsMap'',
                          PDict [(''1'', PInt 5), (''2'', PStr ''n/a''), (''3'', PNone),
                                 (''4'', PStr ''7'')])]])]),
        (''warehouses'',
           PList [PDict [(''code'', PStr ''1''), (''shortName'', PStr ''Dallas, TX'')]])]"

definition signed_payload :: pyval where
  "signed_payload =
     PDict
       [(''product'',
           PDict
             [(''code'', PStr ''PC61''),
              (''variantOptions'',
                 PList
                   [PDict
                      [(''variantOptionQualifiers'',
                          PList [PDict [(''qualifier'', PStr ''size''), (''value'', PStr ''M'')]]),
                       (''stockLevelsMap'',
                          PDict [(''1'', PInt (- 3)), (''2'', PBool True),
                                 (''3'', PStr ''7.0'')])]])]),
        (''warehouses'',
           PList [PDict [(''code'', PStr ''1''), (''shortName'', PStr ''Dallas, TX'')],
                  PDict [(''code'', PStr ''2''), (''shortName'', PStr ''Reno, NV'')]])]"

definition ok_response :: response where
  "ok_response =
     \<lparr>status_code = 200, headers = [(''Content-Type'', ''application/json'')],
      resp_text = ''{...}'', json_body = Some sample_payload\<rparr>"

definition not_found_response :: response where
  "not_found_response =
     \<lparr>status_code = 404, headers = [(''content-type'', ''text/html'')],
      resp_text = ''<html>Not Found</html>'', json_body = None\<rparr>"

definition multiple_choices_response :: response where
  "multiple_choices_response =
     \<lparr>status_code = 300, headers = [(''Content-Type'', ''application/json'')],
      resp_text = ''{}'', json_body = Some (PDict [])\<rparr>"

definition net_not_found :: "string \<Rightarrow> int \<Rightarrow> http_result" where
  "net_not_found url timeout = Response not_found_response"

definition net_base_only :: "string \<Rightarrow> int \<Rightarrow> http_result" where
  "net_base_only url timeout =
     (if url = inventory_url ''60397'' then Response ok_response
      else Response not_found_response)"

definition net_down :: "string \<Rightarrow> int \<Rightarrow> http_result" where
  "net_down url timeout = Raised ConnectionError"

definition net_ok :: "string \<Rightarrow> int \<Rightarrow> http_result" where
  "net_ok url timeout = Response ok_response"

definition net_multiple_choices :: "string \<Rightarrow> int \<Rightarrow> http_result" where
  "net_multiple_choices url timeout = Response multiple_choices_response"

definition net_base_down :: "string \<Rightarrow> int \<Rightarrow> http_result" where
  "net_base_down url timeout =
     (if url = inventory_url ''60397_InsBlue'' then Response not_found_response
      else Raised Timeout)"

section \<open>Properties of the size ordering\<close>





lemma key_defined: "strip (upper s) \<noteq> [] \<Longrightarrow> \<exists>k. size_sort_key s = Inr k"
  by (auto simp: size_sort_key_def split: list.splits)



















section \<open>The matrix builder: loops, tables and the table it returns\<close>

lemma update_fresh: "k \<notin> fst ` set d \<Longrightarrow> AList.update k v d = d @ [(k, v)]"
  by (induction d) auto

lemma dict_fill_fresh:
  "distinct ks \<Longrightarrow> set ks \<inter> fst ` set d = {} \<Longrightarrow>
   dict_fill f ks d = d @ map (\<lambda>k. (k, f k)) ks"
proof (induction ks arbitrary: d)
  case Nil
  then show ?case by simp
next
  case (Cons k ks)
  from Cons.prems have fresh: "k \<notin> fst ` set d" by auto
  from Cons.prems have "set ks \<inter> fst ` set (d @ [(k, f k)]) = {}" by auto
  with Cons.IH[of "d @ [(k, f k)]"] Cons.prems fresh show ?case
    by (simp add: update_fresh)
qed

lemma add_keys_known: "set ks \<subseteq> set K \<Longrightarrow> add_keys K ks = K"
  by (induction ks arbitrary: K) auto

lemma add_keys_fresh:
  "distinct ks \<Longrightarrow> set ks \<inter> set K = {} \<Longrightarrow> add_keys K ks = K @ ks"
  by (induction ks arbitrary: K) auto

lemma record_columns_uniform:
  "\<forall>r \<in> set recs. set (map fst r) \<subseteq> set K \<Longrightarrow> record_columns K recs = K"
  by (induction recs arbitrary: K) (auto simp: add_keys_known)

lemma record_cells_own:
  "distinct (map fst r) \<Longrightarrow> record_cells (map fst r) r = map snd r"
  by (induction r) (auto simp: record_cells_def rev_image_eqI)

lemma pd_DataFrame_uniform:
  assumes "recs \<noteq> []" "distinct ks" "\<forall>r \<in> set recs. map fst r = ks"
  shows "pd_DataFrame recs =
    \<lparr>df_columns = ks, df_index = map (\<lambda>i. PInt (int i)) [0..<length recs],
     df_data = map (map snd) recs\<rparr>"
proof -
  from assms(1) obtain r rs where recs: "recs = r # rs" by (cases recs) auto
  with assms have r: "map fst r = ks" by simp
  have "add_keys [] (map fst r) = ks" using add_keys_fresh[of ks "[]"] assms(2) r by simp
  moreover have "record_columns ks rs = ks"
    using assms(3) recs by (intro record_columns_uniform) auto
  ultimately have cols: "record_columns [] recs = ks" by (simp add: recs)
  have "map (record_cells ks) recs = map (map snd) recs"
    using assms(2,3) record_cells_own by (intro map_cong) auto
  with cols show ?thesis by (simp add: pd_DataFrame_def)
qed

lemma zip_labelled:
  "length ks = length vs \<Longrightarrow> c \<notin> set ks \<Longrightarrow>
   map snd (filter (\<lambda>kv. fst kv \<noteq> c) (zip (c # ks) (v # vs))) = vs"
proof -
  assume a: "length ks = length vs" "c \<notin> set ks"
  have "filter (\<lambda>kv. fst kv \<noteq> c) (zip ks vs) = zip ks vs"
    using a(2) by (intro filter_True) (auto dest: set_zip_leftD)
  with a show ?thesis by simp
qed

lemma set_index_labelled:
  assumes "c \<notin> set ks" "\<forall>r \<in> set rows. length r = Suc (length ks)"
  shows "set_index c \<lparr>df_columns = c # ks, df_index = ix, df_data = rows\<rparr> =
    Inr \<lparr>df_columns = ks, df_index = map hd rows, df_data = map tl rows\<rparr>"
proof -
  have "filter (\<lambda>k. k \<noteq> c) ks = ks" using assms(1) by (intro filter_True) auto
  moreover have "map (\<lambda>r. case map_of (zip (c # ks) r) c of Some v \<Rightarrow> v | None \<Rightarrow> PNone) rows
      = map hd rows"
  proof (intro map_cong refl)
    fix r assume "r \<in> set rows"
    with assms(2) obtain v vs where "r = v # vs" by (cases r) auto
    then show "(case map_of (zip (c # ks) r) c of Some v \<Rightarrow> v | None \<Rightarrow> PNone) = hd r" by simp
  qed
  moreover have "map (\<lambda>r. map snd (filter (\<lambda>kv. fst kv \<noteq> c) (zip (c # ks) r))) rows = map tl rows"
  proof (intro map_cong refl)
    fix r assume "r \<in> set rows"
    with assms(2) obtain v vs where r: "r = v # vs" "length ks = length vs" by (cases r) auto
    with zip_labelled[OF r(2) assms(1)] 
    show "map snd (filter (\<lambda>kv. fst kv \<noteq> c) (zip (c # ks) r)) = tl r" by simp
  qed
  ultimately show ?thesis by (simp add: set_index_def)
qed

lemma size_loop_row:
  "distinct ss \<Longrightarrow> set ss \<inter> fst ` set row = {} \<Longrightarrow>
   fst (size_loop whs w ss (row, tot)) = row @ map (\<lambda>s. (s, PInt (stock_qty whs w s))) ss"
proof (induction ss arbitrary: row tot)
  case Nil
  then show ?case by simp
next
  case (Cons s ss)
  from Cons.prems have fresh: "s \<notin> fst ` set row" by auto
  from Cons.prems have "set ss \<inter> fst ` set (row @ [(s, PInt (stock_qty whs w s))]) = {}" by auto
  with Cons.IH[of "row @ [(s, PInt (stock_qty whs w s))]"] Cons.prems fresh show ?case
    by (simp add: update_fresh)
qed

lemma size_loop_total:
  "distinct ss \<Longrightarrow>
   map_of (snd (size_loop whs w ss (row, tot))) s =
     map_option (\<lambda>t. t + (if s \<in> set ss then stock_qty whs w s else 0)) (map_of tot s)"
proof (induction ss arbitrary: row tot)
  case Nil
  then show ?case by (simp add: option.map_ident)
next
  case (Cons a ss)
  then show ?case
    by (auto simp: map_of_map_entry split: option.splits)
qed

lemma warehouse_loop_table:
  "distinct ss \<Longrightarrow> [] \<notin> set ss \<Longrightarrow>
   fst (warehouse_loop whs ss ws (table, tot)) =
     table @ map (\<lambda>w. ('''', PStr w) # map (\<lambda>s. (s, PInt (stock_qty whs w s))) ss) ws"
proof (induction ws arbitrary: table tot)
  case Nil
  then show ?case by simp
next
  case (Cons w ws)
  have row: "fst (size_loop whs w ss ([('''', PStr w)], tot)) =
      ('''', PStr w) # map (\<lambda>s. (s, PInt (stock_qty whs w s))) ss"
    using size_loop_row[of ss "[('''', PStr w)]" whs w tot] Cons.prems by auto
  show ?case
    using Cons.IH[OF Cons.prems] row
    by (simp split: prod.splits) (metis fst_conv)
qed

lemma warehouse_loop_total:
  "distinct ss \<Longrightarrow>
   map_of (snd (warehouse_loop whs ss ws (table, tot))) s =
     map_option (\<lambda>t. t + (if s \<in> set ss then sum_list (map (\<lambda>w. stock_qty whs w s) ws) else 0))
       (map_of tot s)"
proof (induction ws arbitrary: table tot)
  case Nil
  then show ?case by (simp add: option.map_ident)
next
  case (Cons w ws)
  obtain row1 tot1 where sl: "size_loop whs w ss ([('''', PStr w)], tot) = (row1, tot1)"
    by (cases "size_loop whs w ss ([('''', PStr w)], tot)")
  have t1: "map_of tot1 s = map_option (\<lambda>t. t + (if s \<in> set ss then stock_qty whs w s else 0)) (map_of tot s)"
    using size_loop_total[OF Cons.prems, of whs w "[('''', PStr w)]" tot s] sl by simp
  show ?case
    using Cons.IH[OF Cons.prems, of "table @ [row1]" tot1] t1 sl
    by (cases "map_of tot s") (auto simp: algebra_simps)
qed

lemma size_keys_length: "size_keys xs = Inr ks \<Longrightarrow> length ks = length xs"
  by (induction xs arbitrary: ks) (auto split: sum.splits)

lemma size_keys_defined: "size_keys xs = Inr ks \<Longrightarrow> x \<in> set xs \<Longrightarrow> strip (upper x) \<noteq> []"
  by (induction xs arbitrary: ks) (auto split: sum.splits simp: size_sort_key_def)

lemma size_keys_total: "\<forall>x \<in> set xs. strip (upper x) \<noteq> [] \<Longrightarrow> \<exists>ks. size_keys xs = Inr ks"
proof (induction xs)
  case Nil
  then show ?case by simp
next
  case (Cons x xs)
  then obtain ks where "size_keys xs = Inr ks" by auto
  moreover from Cons.prems key_defined[of x] obtain k where "size_sort_key x = Inr k"
    by auto
  ultimately show ?case by simp
qed

lemma sorted_sizes_mset: "sorted_sizes xs = Inr ys \<Longrightarrow> mset ys = mset xs"
proof -
  assume a: "sorted_sizes xs = Inr ys"
  then obtain ks where ks: "size_keys xs = Inr ks" and ys: "ys = map snd (sort_key fst (zip ks xs))"
    by (auto simp: sorted_sizes_def split: sum.splits)
  have "mset ys = image_mset snd (mset (zip ks xs))" by (simp add: ys)
  also have "\<dots> = mset (map snd (zip ks xs))" by simp
  also have "\<dots> = mset xs" using size_keys_length[OF ks] by simp
  finally show ?thesis .
qed

lemma sorted_sizes_set: "sorted_sizes xs = Inr ys \<Longrightarrow> set ys = set xs"
  by (metis sorted_sizes_mset mset_eq_setD)

lemma sorted_sizes_distinct: "sorted_sizes xs = Inr ys \<Longrightarrow> distinct xs \<Longrightarrow> distinct ys"
  by (metis sorted_sizes_mset mset_eq_imp_distinct_iff)

lemma sorted_sizes_total: "\<forall>x \<in> set xs. strip (upper x) \<noteq> [] \<Longrightarrow> \<exists>ys. sorted_sizes xs = Inr ys"
  using size_keys_total[of xs] by (auto simp: sorted_sizes_def)

lemma sorted_sizes_defined: "sorted_sizes xs = Inr ys \<Longrightarrow> x \<in> set xs \<Longrightarrow> strip (upper x) \<noteq> []"
  by (auto simp: sorted_sizes_def split: sum.splits dest: size_keys_defined)

lemma group_rows_head:
  "\<exists>others. group_rows ((k, p) # ps) rows =
     (k, foldl (\<lambda>p r. record_row r p) p (filter (\<lambda>r. style r = k) rows)) # others"
proof (induction rows arbitrary: p ps)
  case Nil
  then show ?case by simp
next
  case (Cons r rows)
  show ?case
  proof (cases "style r = k")
    case True
    then show ?thesis using Cons.IH[of "record_row r p" ps] by simp
  next
    case False
    then show ?thesis
      using Cons.IH[of p "AList.map_entry (style r) (record_row r) ps"]
        Cons.IH[of p "AList.map_entry (style r) (record_row r) (ps @ [(style r, new_product_data)])"]
      by auto
  qed
qed

lemma group_rows_first:
  assumes "rows \<noteq> []"
  shows "\<exists>others. group_rows [] rows =
     (style (hd rows), foldl (\<lambda>p r. record_row r p) new_product_data (style_group rows)) # others"
proof -
  from assms obtain r rest where rows: "rows = r # rest" by (cases rows) auto
  from group_rows_head[of "style r" "record_row r new_product_data" "[]" rest]
  show ?thesis by (simp add: rows style_group_def)
qed

lemma upper_char_idem: "upper_char (upper_char c) = upper_char c"
  by (auto simp: upper_char_def less_eq_char_def)

lemma upper_idem: "upper (upper s) = upper s"
  by (simp add: upper_def upper_char_idem)

lemma upper_Nil_iff: "upper s = [] \<longleftrightarrow> s = []"
  by (simp add: upper_def)

lemma record_row_sizes:
  "sizes (record_row r p) =
     (if upper (size_tok r) \<noteq> [] then set_add (upper (size_tok r)) (sizes p) else sizes p)"
  by (simp add: record_row_def Let_def)

lemma record_row_keys:
  "fst ` set (warehouses (record_row r p)) = insert (warehouse_name_of r) (fst ` set (warehouses p))"
  by (auto simp: record_row_def Let_def dom_map_entry)

lemma map_of_append_fresh: "k \<notin> fst ` set xs \<Longrightarrow> map_of (xs @ [(k, v)]) k = Some v"
  by (induction xs) auto

lemma record_row_stock:
  "stock_qty (warehouses (record_row r p)) w s =
     (if warehouse_name_of r = w \<and> upper (size_tok r) = s then qty r
      else stock_qty (warehouses p) w s)"
proof (cases "warehouse_name_of r \<in> fst ` set (warehouses p)")
  case True
  then obtain m where "map_of (warehouses p) (warehouse_name_of r) = Some m"
    by (metis domD dom_map_of_conv_image_fst)
  with True show ?thesis
    by (auto simp: record_row_def Let_def stock_qty_def map_of_map_entry update_conv')
next
  case False
  then have "map_of (warehouses p) (warehouse_name_of r) = None"
    by (simp add: map_of_eq_None_iff)
  with False show ?thesis
    by (auto simp: record_row_def Let_def stock_qty_def map_of_map_entry update_conv'
        map_of_append_fresh map_add_def split: option.splits)
qed

lemma record_row_distinct:
  "distinct (map fst (warehouses p)) \<Longrightarrow> distinct (map fst (warehouses (record_row r p)))"
  by (auto simp: record_row_def Let_def intro!: distinct_map_entry)

lemma record_row_distinct_sizes:
  "distinct (sizes p) \<Longrightarrow> distinct (sizes (record_row r p))"
  by (auto simp: record_row_sizes set_add_def)

lemma fold_sizes:
  "set (sizes (foldl (\<lambda>p r. record_row r p) p rs)) =
     set (sizes p) \<union> {upper (size_tok r) |r. r \<in> set rs \<and> size_tok r \<noteq> []}"
  by (induction rs arbitrary: p) (auto simp: record_row_sizes set_add_def upper_Nil_iff)

lemma fold_distinct_sizes:
  "distinct (sizes p) \<Longrightarrow> distinct (sizes (foldl (\<lambda>p r. record_row r p) p rs))"
  by (induction rs arbitrary: p) (auto simp: record_row_distinct_sizes)

lemma fold_keys:
  "fst ` set (warehouses (foldl (\<lambda>p r. record_row r p) p rs)) =
     fst ` set (warehouses p) \<union> warehouse_name_of ` set rs"
  by (induction rs arbitrary: p) (auto simp: record_row_keys)

lemma fold_distinct:
  "distinct (map fst (warehouses p)) \<Longrightarrow>
   distinct (map fst (warehouses (foldl (\<lambda>p r. record_row r p) p rs)))"
  by (induction rs arbitrary: p) (auto simp: record_row_distinct)

lemma fold_stock_last:
  "stock_qty (warehouses (foldl (\<lambda>p r. record_row r p) p (rs @ [r] @ post))) w s = qty r"
  if "warehouse_name_of r = w" "upper (size_tok r) = s"
     "\<forall>x \<in> set post. \<not> (warehouse_name_of x = w \<and> upper (size_tok x) = s)"
  using that
proof (induction post rule: rev_induct)
  case Nil
  then show ?case by (simp add: record_row_stock)
next
  case (snoc x post)
  then show ?case by (auto simp: record_row_stock simp flip: append_assoc)
qed

lemma fold_stock_nonneg:
  "\<forall>r \<in> set rs. 0 \<le> qty r \<Longrightarrow> 0 \<le> stock_qty (warehouses p) w s \<Longrightarrow>
   0 \<le> stock_qty (warehouses (foldl (\<lambda>p r. record_row r p) p rs)) w s"
  by (induction rs arbitrary: p) (auto simp: record_row_stock)

lemma new_product_stock: "stock_qty (warehouses new_product_data) w s = 0"
  by (simp add: new_product_data_def stock_qty_def)

lemma grouped_first:
  "rows \<noteq> [] \<Longrightarrow> \<exists>others. group_rows [] rows = (style (hd rows), grouped rows) # others"
  using group_rows_first by (simp add: grouped_def)

lemma grouped_sizes:
  "set (sizes (grouped rows)) = {upper (size_tok r) |r. r \<in> set (style_group rows) \<and> size_tok r \<noteq> []}"
  by (simp add: grouped_def fold_sizes new_product_data_def)

lemma grouped_distinct_sizes: "distinct (sizes (grouped rows))"
  by (simp add: grouped_def fold_distinct_sizes new_product_data_def)

lemma grouped_keys:
  "fst ` set (warehouses (grouped rows)) = warehouse_name_of ` set (style_group rows)"
  by (simp add: grouped_def fold_keys new_product_data_def)

lemma grouped_distinct: "distinct (map fst (warehouses (grouped rows)))"
  by (simp add: grouped_def fold_distinct new_product_data_def)

lemma build_matrix:
  assumes ss: "distinct ss" "[] \<notin> set ss" and cs: "case_size p = PNone"
  shows "(let pricing_row =
             dict_fill (\<lambda>s. PStr (get_size_price rt s pricing_data)) ss [('''', PStr ''Price: $'')];
           case_size_row = dict_fill (\<lambda>s. case_size p) ss [('''', PStr ''Case Size'')];
           warehouse_header = dict_fill PStr ss [('''', PStr ''Warehouse'')];
           present = map fst (warehouses p);
           warehouse_order = warehouse_order_of present;
           total0 = dict_fill (\<lambda>s. 0) ss []
         in case warehouse_loop (warehouses p) ss warehouse_order
                   ([pricing_row, case_size_row, warehouse_header], total0) of
              (table_data, total_inventory) \<Rightarrow>
                (let total_row =
                       dict_fill (total_of total_inventory) ss [('''', PStr ''Total Inventory'')]
                 in set_index '''' (pd_DataFrame (table_data @ [total_row]))))
     = Inr (matrix_of rt pricing_data (warehouses p) ss)"
proof -
  define whs where "whs = warehouses p"
  define ws where "ws = warehouse_order_of (map fst whs)"
  define heads where "heads =
    [('''', PStr ''Price: $'') # map (\<lambda>s. (s, PStr (get_size_price rt s pricing_data))) ss,
     ('''', PStr ''Case Size'') # map (\<lambda>s. (s, case_size p)) ss,
     ('''', PStr ''Warehouse'') # map (\<lambda>s. (s, PStr s)) ss]"
  define total0 where "total0 = map (\<lambda>s. (s, 0::int)) ss"
  have fresh: "set ss \<inter> fst ` set [('''', v)] = {}" for v :: pyval
    using ss(2) by auto
  have fill: "dict_fill f ss [('''', v)] = ('''', v) # map (\<lambda>s. (s, f s)) ss" for f and v :: pyval
    using dict_fill_fresh[OF ss(1) fresh, of f v] by simp
  have fill0: "dict_fill (\<lambda>s. 0::int) ss [] = total0"
    using dict_fill_fresh[OF ss(1), of "[]" "\<lambda>s. 0::int"] by (simp add: total0_def)
  obtain table_data total_inventory where
    wl: "warehouse_loop whs ss ws (heads, total0) = (table_data, total_inventory)"
    by (cases "warehouse_loop whs ss ws (heads, total0)")
  have td: "table_data =
      heads @ map (\<lambda>w. ('''', PStr w) # map (\<lambda>s. (s, PInt (stock_qty whs w s))) ss) ws"
    using warehouse_loop_table[OF ss(1,2), of whs ws heads total0] wl by simp
  have tot: "total_of total_inventory s = PInt (sum_list (map (\<lambda>w. stock_qty whs w s) ws))"
    if "s \<in> set ss" for s
  proof -
    have "map_of total0 s = Some 0"
      using that by (simp add: total0_def map_of_map_restrict restrict_map_def)
    then show ?thesis
      using warehouse_loop_total[OF ss(1), of whs ws heads total0 s] wl that
      by (simp add: total_of_def)
  qed
  have total_row: "map (\<lambda>s. (s, total_of total_inventory s)) ss =
      map (\<lambda>s. (s, PInt (sum_list (map (\<lambda>w. stock_qty whs w s) ws)))) ss"
    using tot by simp
  define recs where "recs = table_data @
      [('''', PStr ''Total Inventory'')
        # map (\<lambda>s. (s, PInt (sum_list (map (\<lambda>w. stock_qty whs w s) ws)))) ss]"
  have keys: "\<forall>r \<in> set recs. map fst r = '''' # ss"
    by (auto simp: recs_def td heads_def comp_def)
  have dks: "distinct ('''' # ss)" using ss by auto
  have ne: "recs \<noteq> []" by (simp add: recs_def)
  have frame: "pd_DataFrame recs =
      \<lparr>df_columns = '''' # ss, df_index = map (\<lambda>i. PInt (int i)) [0..<length recs],
       df_data = map (map snd) recs\<rparr>"
    by (rule pd_DataFrame_uniform[OF ne dks keys])
  have lens: "\<forall>r \<in> set (map (map snd) recs). length r = Suc (length ss)"
  proof
    fix r assume "r \<in> set (map (map snd) recs)"
    then obtain r0 where r0: "r0 \<in> set recs" "r = map snd r0" by auto
    with keys have "length (map fst r0) = length (''''  # ss)" by simp
    with r0 show "length r = Suc (length ss)" by simp
  qed
  have idx: "set_index '''' (pd_DataFrame recs) =
      Inr \<lparr>df_columns = ss, df_index = map hd (map (map snd) recs),
           df_data = map tl (map (map snd) recs)\<rparr>"
    unfolding frame using ss(2) lens by (intro set_index_labelled) auto
  have "Inr \<lparr>df_columns = ss, df_index = map hd (map (map snd) recs),
           df_data = map tl (map (map snd) recs)\<rparr> =
     Inr (matrix_of rt pricing_data whs ss)"
    by (simp add: recs_def td heads_def matrix_of_def Let_def ws_def comp_def cs)
  with idx show ?thesis
    using wl by (simp add: Let_def fill fill0 total_row recs_def flip: whs_def ws_def heads_def)
qed

lemma record_row_case_size: "case_size (record_row r p) = case_size p"
  by (simp add: record_row_def Let_def)

lemma grouped_case_size: "case_size (grouped rows) = PNone"
proof -
  have "case_size (foldl (\<lambda>p r. record_row r p) p rs) = case_size p" for p rs
    by (induction rs arbitrary: p) (auto simp: record_row_case_size)
  then show ?thesis by (simp add: grouped_def new_product_data_def)
qed

lemma format_unfold:
  assumes "rows \<noteq> []" "sorted_sizes (sizes (grouped rows)) = Inr ss"
  shows "format_inventory_table rt rows pricing_data =
    (if ss = [] then Inr (pd_DataFrame_cell ''Message'' (PStr ''No size data available''))
     else Inr (matrix_of rt pricing_data (warehouses (grouped rows)) ss))"
proof -
  from grouped_first[OF assms(1)] obtain others where
    g: "group_rows [] rows = (style (hd rows), grouped rows) # others" ..
  have d: "distinct ss" using sorted_sizes_distinct[OF assms(2)] grouped_distinct_sizes by simp
  have "set ss = set (sizes (grouped rows))" by (rule sorted_sizes_set[OF assms(2)])
  then have n: "[] \<notin> set ss" by (auto simp: grouped_sizes upper_def)
  show ?thesis
    unfolding format_inventory_table_def
    using assms g build_matrix[OF d n grouped_case_size, of rt pricing_data]
    by simp
qed

lemma format_raises:
  assumes "rows \<noteq> []" "sorted_sizes (sizes (grouped rows)) = Inl e"
  shows "format_inventory_table rt rows pricing_data = Inl e"
proof -
  from grouped_first[OF assms(1)] obtain others where
    g: "group_rows [] rows = (style (hd rows), grouped rows) # others" ..
  show ?thesis unfolding format_inventory_table_def using assms g by simp
qed

lemma format_cases:
  assumes "format_inventory_table rt rows pricing_data = Inr df"
  shows "df = pd_DataFrame_empty \<or>
         df = pd_DataFrame_cell ''Message'' (PStr ''No size data available'') \<or>
         (\<exists>ss. ss \<noteq> [] \<and> sorted_sizes (sizes (grouped rows)) = Inr ss \<and>
               df = matrix_of rt pricing_data (warehouses (grouped rows)) ss)"
proof (cases "rows = []")
  case True
  with assms show ?thesis by (simp add: format_inventory_table_def)
next
  case False
  show ?thesis
  proof (cases "sorted_sizes (sizes (grouped rows))")
    case (Inl e)
    with format_raises[OF False Inl] assms show ?thesis by simp
  next
    case (Inr ss)
    with format_unfold[OF False Inr, of rt pricing_data] assms show ?thesis
      by (auto split: if_splits)
  qed
qed

lemma format_matrix:
  assumes ok: "\<forall>r \<in> set (style_group rows). size_tok r \<noteq> [] \<longrightarrow> strip (upper (size_tok r)) \<noteq> []"
    and has: "\<exists>r \<in> set (style_group rows). size_tok r \<noteq> []"
  shows "\<exists>ss. ss \<noteq> [] \<and> distinct ss \<and>
      set ss = {upper (size_tok r) |r. r \<in> set (style_group rows) \<and> size_tok r \<noteq> []} \<and>
      format_inventory_table rt rows pricing_data =
        Inr (matrix_of rt pricing_data (warehouses (grouped rows)) ss)"
proof -
  from has have ne: "rows \<noteq> []" by (auto simp: style_group_def)
  have "\<forall>x \<in> set (sizes (grouped rows)). strip (upper x) \<noteq> []"
    using ok by (auto simp: grouped_sizes upper_idem)
  from sorted_sizes_total[OF this] obtain ss where
    ss: "sorted_sizes (sizes (grouped rows)) = Inr ss" ..
  have set: "set ss = {upper (size_tok r) |r. r \<in> set (style_group rows) \<and> size_tok r \<noteq> []}"
    using sorted_sizes_set[OF ss] by (simp add: grouped_sizes)
  with has have "ss \<noteq> []" by auto
  moreover have "distinct ss"
    using sorted_sizes_distinct[OF ss] grouped_distinct_sizes by simp
  ultimately show ?thesis
    using format_unfold[OF ne ss, of rt pricing_data] set by auto
qed

lemma format_message:
  assumes "rows \<noteq> []" "\<forall>r \<in> set (style_group rows). size_tok r = []"
  shows "format_inventory_table rt rows pricing_data =
    Inr (pd_DataFrame_cell ''Message'' (PStr ''No size data available''))"
proof -
  have "set (sizes (grouped rows)) = {}" using assms(2) by (auto simp: grouped_sizes)
  then have "sorted_sizes (sizes (grouped rows)) = Inr []" by (simp add: sorted_sizes_def)
  from format_unfold[OF assms(1) this] show ?thesis by simp
qed

lemma warehouse_order_set: "set (warehouse_order_of present) = set present"
  by (auto simp: warehouse_order_of_def)

lemma known_order_distinct: "distinct known_order"
  by (simp add: known_order_def)

lemma warehouse_order_distinct: "distinct present \<Longrightarrow> distinct (warehouse_order_of present)"
  using known_order_distinct by (auto simp: warehouse_order_of_def)

lemma map_of_labelled: "w \<in> set ws \<Longrightarrow> map_of (map (\<lambda>w. (PStr w, g w)) ws) (PStr w) = Some (g w)"
  by (induction ws) auto

lemma map_of_zip_same: "s \<in> set ss \<Longrightarrow> map_of (zip ss (map f ss)) s = Some (f s)"
  by (induction ss) auto

lemma warehouse_part_matrix:
  "warehouse_part (matrix_of rt pd whs ss) =
     map (\<lambda>w. (PStr w, map (\<lambda>s. PInt (stock_qty whs w s)) ss)) (warehouse_order_of (map fst whs))"
  by (simp add: warehouse_part_def matrix_of_def Let_def zip_map_map butlast_append
      zip_same_conv_map)

lemma matrix_cell_matrix:
  assumes "w \<in> fst ` set whs" "s \<in> set ss"
  shows "matrix_cell (matrix_of rt pd whs ss) w s = Some (PInt (stock_qty whs w s))"
proof -
  have "w \<in> set (warehouse_order_of (map fst whs))"
    using assms(1) by (simp add: warehouse_order_set)
  then have "map_of (warehouse_part (matrix_of rt pd whs ss)) (PStr w) =
      Some (map (\<lambda>s. PInt (stock_qty whs w s)) ss)"
    unfolding warehouse_part_matrix by (rule map_of_labelled)
  moreover have "df_columns (matrix_of rt pd whs ss) = ss" by (simp add: matrix_of_def Let_def)
  ultimately show ?thesis
    using assms(2) by (simp add: matrix_cell_def map_of_zip_same)
qed

lemma total_cell_matrix:
  assumes "s \<in> set ss"
  shows "total_cell (matrix_of rt pd whs ss) s =
    Some (PInt (sum_list (map (\<lambda>w. stock_qty whs w s) (warehouse_order_of (map fst whs)))))"
  using assms by (simp add: total_cell_def matrix_of_def Let_def map_of_zip_same)

lemma matrix_index:
  "df_index (matrix_of rt pd whs ss) =
     [PStr ''Price: $'', PStr ''Case Size'', PStr ''Warehouse'']
       @ map PStr (warehouse_order_of (map fst whs)) @ [PStr ''Total Inventory'']"
  by (simp add: matrix_of_def Let_def)

lemma matrix_length:
  "length (df_data (matrix_of rt pd whs ss)) = length (warehouse_order_of (map fst whs)) + 4"
  by (simp add: matrix_of_def Let_def)

lemma matrix_columns: "df_columns (matrix_of rt pd whs ss) = ss"
  by (simp add: matrix_of_def Let_def)

lemma matrix_total_sum:
  assumes "s \<in> set ss"
  shows "total_cell (matrix_of rt pd whs ss) s =
    Some (PInt (sum_list (map (\<lambda>w. cell_int (matrix_cell (matrix_of rt pd whs ss) w s))
      (warehouse_order_of (map fst whs)))))"
proof -
  have "map (\<lambda>w. cell_int (matrix_cell (matrix_of rt pd whs ss) w s)) (warehouse_order_of (map fst whs))
      = map (\<lambda>w. stock_qty whs w s) (warehouse_order_of (map fst whs))"
    using assms by (intro map_cong refl) (simp add: warehouse_order_set matrix_cell_matrix cell_int_def)
  then show ?thesis by (simp only: total_cell_matrix[OF assms])
qed

lemma grouped_stock_nonneg:
  assumes "\<forall>r \<in> set rows. 0 \<le> qty r"
  shows "0 \<le> stock_qty (warehouses (grouped rows)) w s"
  unfolding grouped_def using assms
  by (intro fold_stock_nonneg) (auto simp: style_group_def new_product_stock)

lemma format_cells_nonneg:
  assumes nn: "\<forall>r \<in> set rows. 0 \<le> qty r"
    and df: "format_inventory_table rt rows pricing_data = Inr df"
  shows "\<forall>cells \<in> set (drop 3 (df_data df)). \<forall>c \<in> set cells. \<exists>n\<ge>0. c = PInt n"
proof -
  from format_cases[OF df] consider
      "df = pd_DataFrame_empty"
    | "df = pd_DataFrame_cell ''Message'' (PStr ''No size data available'')"
    | ss where "df = matrix_of rt pricing_data (warehouses (grouped rows)) ss"
    by blast
  then show ?thesis
  proof cases
    case 1
    then show ?thesis by (simp add: pd_DataFrame_empty_def)
  next
    case 2
    then show ?thesis by (simp add: pd_DataFrame_cell_def)
  next
    case 3
    have "0 \<le> sum_list (map (\<lambda>w. stock_qty (warehouses (grouped rows)) w s) ws)" for s ws
      using grouped_stock_nonneg[OF nn] by (intro sum_list_nonneg) auto
    with 3 grouped_stock_nonneg[OF nn] show ?thesis
      by (auto simp: matrix_of_def Let_def)
  qed
qed

text \<open>The definitions a concrete table is computed with.\<close>

lemmas fmt_eval = format_inventory_table_def inventory_row_def record_row_def Let_def
  new_product_data_def warehouse_name_of_def strip_def isspace_def upper_def upper_char_def
  set_add_def sorted_sizes_def size_sort_key_def isdigit_def digit_val_def size_order_def
  warehouse_order_of_def known_order_def stock_qty_def total_of_def get_size_price_def
  base_prices_def pd_DataFrame_def record_cells_def set_index_def


section \<open>C3: the rows of the matrix and its Total row\<close>

text \<open>
  C3, as the code has it. Take rows whose first style group has a size token and no
  blank one (a token of white space only). Then \<open>format_inventory_table\<close> returns a
  table whose columns are the distinct upper-cased sizes of the group and whose rows
  are, in this order, Price, Case Size, the size header, one row per distinct warehouse
  name of the group, and Total Inventory: four rows more than there are warehouses.
  Every warehouse cell is an integer, and the Total cell of a size is the sum of the
  warehouse cells in that column.
\<close>

theorem format_inventory_table_rows_and_totals:
  assumes "\<forall>r \<in> set (style_group rows). size_tok r \<noteq> [] \<longrightarrow> strip (upper (size_tok r)) \<noteq> []"
    and "\<exists>r \<in> set (style_group rows). size_tok r \<noteq> []"
  shows "\<exists>df ws. format_inventory_table rt rows pricing_data = Inr df
    \<and> distinct (df_columns df)
    \<and> set (df_columns df) =
        set (map upper (filter (\<lambda>s. s \<noteq> []) (map size_tok (style_group rows))))
    \<and> distinct ws
    \<and> set ws = warehouse_name_of ` set (style_group rows)
    \<and> df_index df = [PStr ''Price: $'', PStr ''Case Size'', PStr ''Warehouse'']
         @ map PStr ws @ [PStr ''Total Inventory'']
    \<and> length (df_data df) = length ws + 4
    \<and> (\<forall>s \<in> set (df_columns df). \<forall>w \<in> set ws. \<exists>n. matrix_cell df w s = Some (PInt n))
    \<and> (\<forall>s \<in> set (df_columns df).
          total_cell df s = Some (PInt (sum_list (map (\<lambda>w. cell_int (matrix_cell df w s)) ws))))"
proof -
  define whs where "whs = warehouses (grouped rows)"
  define ws where "ws = warehouse_order_of (map fst whs)"
  from format_matrix[OF assms, of rt pricing_data] obtain ss where
    ss: "ss \<noteq> []" "distinct ss"
      "set ss = {upper (size_tok r) |r. r \<in> set (style_group rows) \<and> size_tok r \<noteq> []}"
      "format_inventory_table rt rows pricing_data = Inr (matrix_of rt pricing_data whs ss)"
    unfolding whs_def by blast
  have conv: "{upper (size_tok r) |r. r \<in> set (style_group rows) \<and> size_tok r \<noteq> []} =
      set (map upper (filter (\<lambda>s. s \<noteq> []) (map size_tok (style_group rows))))"
    by auto
  have cols: "set ss = set (map upper (filter (\<lambda>s. s \<noteq> []) (map size_tok (style_group rows))))"
    unfolding conv[symmetric] by (rule ss(3))
  have keys: "set ws = fst ` set whs" by (simp add: ws_def warehouse_order_set)
  let ?df = "matrix_of rt pricing_data whs ss"
  have c1: "distinct (df_columns ?df)" using ss(2) by (simp add: matrix_columns)
  have c2: "set (df_columns ?df) =
      set (map upper (filter (\<lambda>s. s \<noteq> []) (map size_tok (style_group rows))))"
    using cols by (simp only: matrix_columns)
  have c3: "distinct ws"
    unfolding ws_def whs_def by (intro warehouse_order_distinct grouped_distinct)
  have c4: "set ws = warehouse_name_of ` set (style_group rows)"
    by (simp add: keys whs_def grouped_keys)
  have c5: "df_index ?df = [PStr ''Price: $'', PStr ''Case Size'', PStr ''Warehouse'']
         @ map PStr ws @ [PStr ''Total Inventory'']"
    unfolding ws_def by (rule matrix_index)
  have c6: "length (df_data ?df) = length ws + 4"
    unfolding ws_def by (rule matrix_length)
  have c7: "\<forall>s \<in> set (df_columns ?df). \<forall>w \<in> set ws. \<exists>n. matrix_cell ?df w s = Some (PInt n)"
    using keys by (simp add: matrix_cell_matrix matrix_columns)
  have c8: "\<forall>s \<in> set (df_columns ?df).
      total_cell ?df s = Some (PInt (sum_list (map (\<lambda>w. cell_int (matrix_cell ?df w s)) ws)))"
    unfolding ws_def by (simp add: matrix_total_sum matrix_columns)
  from ss(4) c1 c2 c3 c4 c5 c6 c7 c8 show ?thesis by blast
qed

text \<open>
  The example of the specification: Dallas before Reno, and 5 + 3 = 8 in the Total row.
\<close>

theorem format_inventory_table_rows_and_totals_witness:
  "(\<exists>df ws. format_inventory_table sample_builtins
        [inventory_row ''PC61'' ''M'' ''1'' ''Dallas, TX'' 5,
         inventory_row ''PC61'' ''M'' ''2'' ''Reno, NV'' 3] None = Inr df
    \<and> distinct (df_columns df)
    \<and> set (df_columns df) = {''M''}
    \<and> distinct ws
    \<and> set ws = {''Dallas, TX'', ''Reno, NV''}
    \<and> df_index df = [PStr ''Price: $'', PStr ''Case Size'', PStr ''Warehouse'']
         @ map PStr ws @ [PStr ''Total Inventory'']
    \<and> length (df_data df) = length ws + 4
    \<and> (\<forall>s \<in> set (df_columns df). \<forall>w \<in> set ws. \<exists>n. matrix_cell df w s = Some (PInt n))
    \<and> (\<forall>s \<in> set (df_columns df).
          total_cell df s = Some (PInt (sum_list (map (\<lambda>w. cell_int (matrix_cell df w s)) ws)))))
   \<and> format_inventory_table sample_builtins
        [inventory_row ''PC61'' ''M'' ''1'' ''Dallas, TX'' 5,
         inventory_row ''PC61'' ''M'' ''2'' ''Reno, NV'' 3] None =
      Inr \<lparr>df_columns = [''M''],
           df_index = [PStr ''Price: $'', PStr ''Case Size'', PStr ''Warehouse'',
                       PStr ''Dallas, TX'', PStr ''Reno, NV'', PStr ''Total Inventory''],
           df_data = [[PStr ''37.26''], [PNone], [PStr ''M''], [PInt 5], [PInt 3], [PInt 8]]\<rparr>"
proof -
  let ?rows = "[inventory_row ''PC61'' ''M'' ''1'' ''Dallas, TX'' 5,
         inventory_row ''PC61'' ''M'' ''2'' ''Reno, NV'' 3]"
  have g: "style_group ?rows = ?rows" by (simp add: style_group_def inventory_row_def)
  have h1: "\<forall>r \<in> set (style_group ?rows). size_tok r \<noteq> [] \<longrightarrow> strip (upper (size_tok r)) \<noteq> []"
    unfolding g by (simp add: inventory_row_def strip_def upper_def upper_char_def isspace_def)
  have h2: "\<exists>r \<in> set (style_group ?rows). size_tok r \<noteq> []"
    unfolding g by (simp add: inventory_row_def)
  have names: "warehouse_name_of ` set (style_group ?rows) = {''Dallas, TX'', ''Reno, NV''}"
    unfolding g by (simp add: inventory_row_def warehouse_name_of_def strip_def isspace_def)
  have szs: "set (map upper (filter (\<lambda>s. s \<noteq> []) (map size_tok (style_group ?rows)))) = {''M''}"
    unfolding g by (simp add: inventory_row_def upper_def upper_char_def)
  have ex: "\<exists>df ws. format_inventory_table sample_builtins ?rows None = Inr df
    \<and> distinct (df_columns df)
    \<and> set (df_columns df) = {''M''}
    \<and> distinct ws
    \<and> set ws = {''Dallas, TX'', ''Reno, NV''}
    \<and> df_index df = [PStr ''Price: $'', PStr ''Case Size'', PStr ''Warehouse'']
         @ map PStr ws @ [PStr ''Total Inventory'']
    \<and> length (df_data df) = length ws + 4
    \<and> (\<forall>s \<in> set (df_columns df). \<forall>w \<in> set ws. \<exists>n. matrix_cell df w s = Some (PInt n))
    \<and> (\<forall>s \<in> set (df_columns df).
          total_cell df s = Some (PInt (sum_list (map (\<lambda>w. cell_int (matrix_cell df w s)) ws))))"
    using format_inventory_table_rows_and_totals[OF h1 h2, of sample_builtins None]
    unfolding names szs .
  have val: "format_inventory_table sample_builtins ?rows None =
    Inr \<lparr>df_columns = [''M''],
         df_index = [PStr ''Price: $'', PStr ''Case Size'', PStr ''Warehouse'',
                     PStr ''Dallas, TX'', PStr ''Reno, NV'', PStr ''Total Inventory''],
         df_data = [[PStr ''37.26''], [PNone], [PStr ''M''], [PInt 5], [PInt 3], [PInt 8]]\<rparr>"
    by (simp add: fmt_eval)
  from ex val show ?thesis by (rule conjI)
qed

text \<open>
  The count the claim gives, the number of sizes plus three, is not the number of rows:
  one size at one warehouse gives five rows, not four.
\<close>

theorem format_inventory_table_rows_counterexample:
  "format_inventory_table sample_builtins [inventory_row ''PC61'' ''M'' ''1'' ''Dallas, TX'' 5] None =
     Inr \<lparr>df_columns = [''M''],
          df_index = [PStr ''Price: $'', PStr ''Case Size'', PStr ''Warehouse'',
                      PStr ''Dallas, TX'', PStr ''Total Inventory''],
          df_data = [[PStr ''37.26''], [PNone], [PStr ''M''], [PInt 5], [PInt 5]]\<rparr>
   \<and> length [PStr ''Price: $'', PStr ''Case Size'', PStr ''Warehouse'',
              PStr ''Dallas, TX'', PStr ''Total Inventory''] \<noteq> length [''M''] + 3"
  by (simp add: fmt_eval)

section \<open>C5: no rows, and rows without a size\<close>

text \<open>
  C5, as the code has it. For an empty list of rows \<open>format_inventory_table\<close> returns
  the empty table \<open>pd.DataFrame()\<close>, and it is its caller
  \<open>create_inventory_display_table\<close> that turns this into the one-cell table
  "No inventory data available". For a non-empty list in which no row carries a size
  token, \<open>format_inventory_table\<close> itself returns the one-cell table
  "No size data available". Neither case raises.
\<close>

theorem no_rows_no_sizes:
  "format_inventory_table rt [] pricing_data = Inr pd_DataFrame_empty
   \<and> create_inventory_display_table rt [] style_name =
       Inr (pd_DataFrame_cell ''Message'' (PStr ''No inventory data available''))
   \<and> (rows \<noteq> [] \<and> (\<forall>r \<in> set rows. size_tok r = []) \<longrightarrow>
       format_inventory_table rt rows pricing_data =
         Inr (pd_DataFrame_cell ''Message'' (PStr ''No size data available'')))"
proof -
  have "format_inventory_table rt rows pricing_data =
      Inr (pd_DataFrame_cell ''Message'' (PStr ''No size data available''))"
    if "rows \<noteq> []" "\<forall>r \<in> set rows. size_tok r = []"
    using that by (intro format_message) (auto simp: style_group_def)
  then show ?thesis
    by (simp add: format_inventory_table_def create_inventory_display_table_def
        pd_DataFrame_empty_def df_empty_def)
qed

text \<open>The three cases at concrete inputs.\<close>

theorem no_rows_no_sizes_witness:
  "format_inventory_table sample_builtins [] None = Inr pd_DataFrame_empty
   \<and> create_inventory_display_table sample_builtins [] ''PC61'' =
       Inr (pd_DataFrame_cell ''Message'' (PStr ''No inventory data available''))
   \<and> format_inventory_table sample_builtins
         [inventory_row ''PC61'' '''' ''1'' ''Dallas, TX'' 5,
          inventory_row ''PC61'' '''' ''2'' ''Reno, NV'' 3] None =
       Inr \<lparr>df_columns = [''Message''], df_index = [PInt 0],
            df_data = [[PStr ''No size data available'']]\<rparr>"
  using no_rows_no_sizes[of sample_builtins None "''PC61''"
      "[inventory_row ''PC61'' '''' ''1'' ''Dallas, TX'' 5,
        inventory_row ''PC61'' '''' ''2'' ''Reno, NV'' 3]"]
  by (simp add: inventory_row_def pd_DataFrame_cell_def)

text \<open>
  For zero rows the builder returns a table with no rows and no columns, which the claim
  excludes.
\<close>

theorem no_rows_counterexample:
  "format_inventory_table sample_builtins [] None =
     Inr \<lparr>df_columns = [], df_index = [], df_data = []\<rparr>"
  by (simp add: format_inventory_table_def pd_DataFrame_empty_def)

section \<open>C10: a repeated warehouse and size\<close>

text \<open>
  C10, as the code has it. The table shows one style, that of the first row. Let two
  rows of the input carry that style, the same warehouse name and the same upper-cased
  size, let no later row of that style repeat the pair, and let no row of that style
  have a size of white space alone. Then the builder returns a table in which the cell
  of that warehouse and size holds the quantity of the later row alone, whatever the
  earlier row said, and the Total cell of the size is that quantity plus the cells of
  the other warehouses.
\<close>

theorem duplicate_rows_overwrite:
  assumes rows: "rows = pre @ [r1] @ mid @ [r2] @ post"
    and st: "style r1 = style (hd rows)" "style r2 = style (hd rows)"
    and wh: "warehouse_name_of r1 = warehouse_name_of r2"
    and sz: "upper (size_tok r1) = upper (size_tok r2)" "size_tok r2 \<noteq> []"
    and lst: "\<forall>x \<in> set post. style x = style (hd rows) \<longrightarrow>
        \<not> (warehouse_name_of x = warehouse_name_of r2 \<and> upper (size_tok x) = upper (size_tok r2))"
    and ok: "\<forall>r \<in> set (style_group rows). size_tok r \<noteq> [] \<longrightarrow> strip (upper (size_tok r)) \<noteq> []"
  shows "\<exists>df ws. format_inventory_table rt rows pricing_data = Inr df
    \<and> matrix_cell df (warehouse_name_of r2) (upper (size_tok r2)) = Some (PInt (qty r2))
    \<and> distinct ws
    \<and> set ws = warehouse_name_of ` set (style_group rows)
    \<and> total_cell df (upper (size_tok r2)) =
        Some (PInt (qty r2 + sum_list (map (\<lambda>w. cell_int (matrix_cell df w (upper (size_tok r2))))
                                  (remove1 (warehouse_name_of r2) ws))))"
proof -
  define w where "w = warehouse_name_of r2"
  define s where "s = upper (size_tok r2)"
  define whs where "whs = warehouses (grouped rows)"
  define ws where "ws = warehouse_order_of (map fst whs)"
  define P where "P = (\<lambda>r :: canonical_row. style r = style (hd rows))"
  have Pr2: "P r2" using st(2) by (simp add: P_def)
  have "filter P rows = filter P (pre @ [r1] @ mid) @ [r2] @ filter P post"
    by (subst rows) (simp add: Pr2)
  moreover have "style_group rows = filter P rows" by (simp add: style_group_def P_def)
  ultimately have grp: "style_group rows = filter P (pre @ [r1] @ mid) @ [r2] @ filter P post"
    by simp
  have r2in: "r2 \<in> set (style_group rows)" by (simp add: grp)
  then have has: "\<exists>r \<in> set (style_group rows). size_tok r \<noteq> []" using sz(2) by blast
  from format_matrix[OF ok has, of rt pricing_data] obtain ss where
    ss: "set ss = {upper (size_tok r) |r. r \<in> set (style_group rows) \<and> size_tok r \<noteq> []}"
      "format_inventory_table rt rows pricing_data = Inr (matrix_of rt pricing_data whs ss)"
    unfolding whs_def by blast
  let ?df = "matrix_of rt pricing_data whs ss"
  have s_in: "s \<in> set ss" using r2in sz(2) by (auto simp: ss(1) s_def)
  have w_in: "w \<in> fst ` set whs" using r2in by (auto simp: whs_def grouped_keys w_def)
  have keys: "set ws = fst ` set whs" by (simp add: ws_def warehouse_order_set)
  have "\<forall>x \<in> set (filter P post). \<not> (warehouse_name_of x = w \<and> upper (size_tok x) = s)"
    using lst by (simp add: P_def w_def s_def)
  then have q: "stock_qty whs w s = qty r2"
    unfolding whs_def grouped_def grp by (intro fold_stock_last) (simp_all add: w_def s_def)
  have cell: "matrix_cell ?df w s = Some (PInt (qty r2))"
    using matrix_cell_matrix[OF w_in s_in, of rt pricing_data] q by simp
  have "total_cell ?df s = Some (PInt (sum_list (map (\<lambda>w. cell_int (matrix_cell ?df w s)) ws)))"
    unfolding ws_def by (rule matrix_total_sum[OF s_in])
  moreover have "sum_list (map (\<lambda>w. cell_int (matrix_cell ?df w s)) ws) =
      cell_int (matrix_cell ?df w s) + sum_list (map (\<lambda>w. cell_int (matrix_cell ?df w s)) (remove1 w ws))"
    using w_in keys by (intro sum_list_map_remove1) simp
  ultimately have tot: "total_cell ?df s =
      Some (PInt (qty r2 + sum_list (map (\<lambda>w. cell_int (matrix_cell ?df w s)) (remove1 w ws))))"
    by (simp add: cell cell_int_def)
  have "distinct ws"
    unfolding ws_def whs_def by (intro warehouse_order_distinct grouped_distinct)
  moreover have "set ws = warehouse_name_of ` set (style_group rows)"
    by (simp add: keys whs_def grouped_keys)
  ultimately show ?thesis
    using ss(2) cell tot unfolding w_def s_def by blast
qed

lemma upper_samples: "upper ''m'' = ''M''" "upper ''M'' = ''M''" "upper ''L'' = ''L''"
  by code_simp+

lemmas fmt_eval_upper = format_inventory_table_def inventory_row_def record_row_def Let_def
  new_product_data_def warehouse_name_of_def strip_def isspace_def upper_samples
  set_add_def sorted_sizes_def size_sort_key_def isdigit_def digit_val_def size_order_def
  warehouse_order_of_def known_order_def stock_qty_def total_of_def get_size_price_def
  base_prices_def pd_DataFrame_def record_cells_def set_index_def

text \<open>
  Dallas reports the size twice, 5 under \<open>m\<close> and then 7 under \<open>M\<close> (the name differs only in
  white space); there is one column \<open>M\<close>, and the cell and the Total show 7.
\<close>

theorem duplicate_rows_overwrite_witness:
  "(\<exists>df ws. format_inventory_table sample_builtins
        [inventory_row ''PC61'' ''m'' ''1'' ''Dallas, TX'' 5,
         inventory_row ''PC61'' ''L'' ''2'' ''Reno, NV'' 2,
         inventory_row ''PC61'' ''M'' ''1'' '' Dallas, TX '' 7] None = Inr df
    \<and> matrix_cell df ''Dallas, TX'' ''M'' = Some (PInt 7)
    \<and> distinct ws
    \<and> set ws = {''Dallas, TX'', ''Reno, NV''}
    \<and> total_cell df ''M'' =
        Some (PInt (7 + sum_list (map (\<lambda>w. cell_int (matrix_cell df w ''M''))
                                  (remove1 ''Dallas, TX'' ws)))))
   \<and> format_inventory_table sample_builtins
        [inventory_row ''PC61'' ''m'' ''1'' ''Dallas, TX'' 5,
         inventory_row ''PC61'' ''L'' ''2'' ''Reno, NV'' 2,
         inventory_row ''PC61'' ''M'' ''1'' '' Dallas, TX '' 7] None =
      Inr \<lparr>df_columns = [''M'', ''L''],
           df_index = [PStr ''Price: $'', PStr ''Case Size'', PStr ''Warehouse'',
                       PStr ''Dallas, TX'', PStr ''Reno, NV'', PStr ''Total Inventory''],
           df_data = [[PStr ''37.26'', PStr ''37.26''], [PNone, PNone],
                      [PStr ''M'', PStr ''L''], [PInt 7, PInt 0], [PInt 0, PInt 2],
                      [PInt 7, PInt 2]]\<rparr>"
proof -
  let ?r1 = "inventory_row ''PC61'' ''m'' ''1'' ''Dallas, TX'' 5"
  let ?m = "inventory_row ''PC61'' ''L'' ''2'' ''Reno, NV'' 2"
  let ?r2 = "inventory_row ''PC61'' ''M'' ''1'' '' Dallas, TX '' 7"
  let ?rows = "[?r1, ?m, ?r2]"
  have g: "style_group ?rows = ?rows" by (simp add: style_group_def inventory_row_def)
  have w1: "warehouse_name_of ?r1 = ''Dallas, TX''"
    by (simp add: inventory_row_def warehouse_name_of_def strip_def isspace_def)
  have w2: "warehouse_name_of ?r2 = ''Dallas, TX''"
    by (simp add: inventory_row_def warehouse_name_of_def strip_def isspace_def)
  have wm: "warehouse_name_of ?m = ''Reno, NV''"
    by (simp add: inventory_row_def warehouse_name_of_def strip_def isspace_def)
  have s1: "upper (size_tok ?r1) = ''M''" by (simp add: inventory_row_def upper_samples)
  have s2: "upper (size_tok ?r2) = ''M''" by (simp add: inventory_row_def upper_samples)
  have q2: "qty ?r2 = 7" by (simp add: inventory_row_def)
  have names: "warehouse_name_of ` set (style_group ?rows) = {''Dallas, TX'', ''Reno, NV''}"
    unfolding g using w1 w2 wm by auto
  have ok: "\<forall>r \<in> set (style_group ?rows). size_tok r \<noteq> [] \<longrightarrow> strip (upper (size_tok r)) \<noteq> []"
    unfolding g by (simp add: inventory_row_def strip_def upper_samples isspace_def)
  have ex: "\<exists>df ws. format_inventory_table sample_builtins ?rows None = Inr df
    \<and> matrix_cell df ''Dallas, TX'' ''M'' = Some (PInt 7)
    \<and> distinct ws
    \<and> set ws = {''Dallas, TX'', ''Reno, NV''}
    \<and> total_cell df ''M'' =
        Some (PInt (7 + sum_list (map (\<lambda>w. cell_int (matrix_cell df w ''M''))
                                  (remove1 ''Dallas, TX'' ws))))"
    using duplicate_rows_overwrite[where pre = "[]" and ?r1.0 = ?r1 and mid = "[?m]"
        and ?r2.0 = ?r2 and post = "[]" and rows = ?rows and rt = sample_builtins
        and pricing_data = None, OF _ _ _ _ _ _ _ ok]
    unfolding w1 w2 s1 s2 q2 names
    by (simp add: inventory_row_def)
  have val: "format_inventory_table sample_builtins ?rows None =
      Inr \<lparr>df_columns = [''M'', ''L''],
           df_index = [PStr ''Price: $'', PStr ''Case Size'', PStr ''Warehouse'',
                       PStr ''Dallas, TX'', PStr ''Reno, NV'', PStr ''Total Inventory''],
           df_data = [[PStr ''37.26'', PStr ''37.26''], [PNone, PNone],
                      [PStr ''M'', PStr ''L''], [PInt 7, PInt 0], [PInt 0, PInt 2],
                      [PInt 7, PInt 2]]\<rparr>"
    by (simp add: fmt_eval_upper)
  from ex val show ?thesis by (rule conjI)
qed

text \<open>
  The claim fails for two rows of a style that is not the first. The first row is of the
  style PC61; K500 then reports size M at Dallas twice, 5 and 7. The table is that of
  PC61 alone: the cell and the Total show 1, and neither 7 nor 5 appears.
\<close>

theorem duplicate_rows_counterexample:
  "format_inventory_table sample_builtins
     [inventory_row ''PC61'' ''M'' ''1'' ''Dallas, TX'' 1,
      inventory_row ''K500'' ''M'' ''1'' ''Dallas, TX'' 5,
      inventory_row ''K500'' ''M'' ''1'' ''Dallas, TX'' 7] None =
   Inr \<lparr>df_columns = [''M''],
        df_index = [PStr ''Price: $'', PStr ''Case Size'', PStr ''Warehouse'',
                    PStr ''Dallas, TX'', PStr ''Total Inventory''],
        df_data = [[PStr ''37.26''], [PNone], [PStr ''M''], [PInt 1], [PInt 1]]\<rparr>
   \<and> matrix_cell
        \<lparr>df_columns = [''M''],
         df_index = [PStr ''Price: $'', PStr ''Case Size'', PStr ''Warehouse'',
                     PStr ''Dallas, TX'', PStr ''Total Inventory''],
         df_data = [[PStr ''37.26''], [PNone], [PStr ''M''], [PInt 1], [PInt 1]]\<rparr>
        ''Dallas, TX'' ''M'' = Some (PInt 1)
   \<and> total_cell
        \<lparr>df_columns = [''M''],
         df_index = [PStr ''Price: $'', PStr ''Case Size'', PStr ''Warehouse'',
                     PStr ''Dallas, TX'', PStr ''Total Inventory''],
         df_data = [[PStr ''37.26''], [PNone], [PStr ''M''], [PInt 1], [PInt 1]]\<rparr>
        ''M'' = Some (PInt 1)"
proof -
  have a: "format_inventory_table sample_builtins
     [inventory_row ''PC61'' ''M'' ''1'' ''Dallas, TX'' 1,
      inventory_row ''K500'' ''M'' ''1'' ''Dallas, TX'' 5,
      inventory_row ''K500'' ''M'' ''1'' ''Dallas, TX'' 7] None =
   Inr \<lparr>df_columns = [''M''],
        df_index = [PStr ''Price: $'', PStr ''Case Size'', PStr ''Warehouse'',
                    PStr ''Dallas, TX'', PStr ''Total Inventory''],
        df_data = [[PStr ''37.26''], [PNone], [PStr ''M''], [PInt 1], [PInt 1]]\<rparr>"
    by (simp add: fmt_eval)
  have b: "matrix_cell
        \<lparr>df_columns = [''M''],
         df_index = [PStr ''Price: $'', PStr ''Case Size'', PStr ''Warehouse'',
                     PStr ''Dallas, TX'', PStr ''Total Inventory''],
         df_data = [[PStr ''37.26''], [PNone], [PStr ''M''], [PInt 1], [PInt 1]]\<rparr>
        ''Dallas, TX'' ''M'' = Some (PInt 1)"
    by (simp add: matrix_cell_def warehouse_part_def)
  have c: "total_cell
        \<lparr>df_columns = [''M''],
         df_index = [PStr ''Price: $'', PStr ''Case Size'', PStr ''Warehouse'',
                     PStr ''Dallas, TX'', PStr ''Total Inventory''],
         df_data = [[PStr ''37.26''], [PNone], [PStr ''M''], [PInt 1], [PInt 1]]\<rparr>
        ''M'' = Some (PInt 1)"
    by (simp add: total_cell_def)
  from a b c show ?thesis by simp
qed

section \<open>C9: the columns of the flat export\<close>

lemma add_keys_set: "set (add_keys K cs) = set K \<union> set cs"
  by (induction cs arbitrary: K) auto

lemma add_keys_append: "\<exists>N. add_keys K cs = K @ N \<and> set N \<inter> set K = {} \<and> set N \<subseteq> set cs"
proof (induction cs arbitrary: K)
  case Nil
  then show ?case by simp
next
  case (Cons c cs)
  show ?case
  proof (cases "c \<in> set K")
    case True
    with Cons.IH[of K] show ?thesis by auto
  next
    case False
    from Cons.IH[of "K @ [c]"] obtain N where
      N: "add_keys (K @ [c]) cs = (K @ [c]) @ N" "set N \<inter> set (K @ [c]) = {}" "set N \<subseteq> set cs"
      by blast
    with False show ?thesis by (intro exI[of _ "c # N"]) auto
  qed
qed

lemma record_columns_set: "set (record_columns K rs) = set K \<union> set (concat (map (map fst) rs))"
  by (induction rs arbitrary: K) (auto simp: add_keys_set)

lemma add_missing_columns: "df_columns (add_missing cs df) = add_keys (df_columns df) cs"
  by (induction cs arbitrary: df) (auto simp: set_column_def)

lemma add_missing_index: "df_index (add_missing cs df) = df_index df"
  by (induction cs arbitrary: df) (auto simp: set_column_def)

lemma add_missing_data:
  "df_data (add_missing cs df) =
     map (\<lambda>r. r @ replicate (length (add_keys (df_columns df) cs) - length (df_columns df)) PNone)
       (df_data df)"
proof (induction cs arbitrary: df)
  case Nil
  then show ?case by simp
next
  case (Cons c cs)
  show ?case
  proof (cases "c \<in> set (df_columns df)")
    case True
    with Cons.IH[of df] show ?thesis by simp
  next
    case False
    let ?df = "set_column c PNone df"
    have c: "df_columns ?df = df_columns df @ [c]" "df_data ?df = map (\<lambda>r. r @ [PNone]) (df_data df)"
      using False by (simp_all add: set_column_def)
    from add_keys_append[of "df_columns df @ [c]" cs] obtain N where
      N: "add_keys (df_columns df @ [c]) cs = (df_columns df @ [c]) @ N" by blast
    show ?thesis
      using False Cons.IH[of ?df] by (simp add: c N replicate_append_same flip: replicate_Suc)
  qed
qed

lemma map_of_zip_padded:
  assumes "length K = length vs"
  shows "map_of (zip (K @ N) (vs @ replicate (length N) v)) c =
    (if c \<in> set K then map_of (zip K vs) c else if c \<in> set N then Some v else None)"
proof -
  have pad: "map_of (zip N (replicate (length N) v)) c = (if c \<in> set N then Some v else None)"
    by (induction N) auto
  have split: "map_of (zip (K @ N) (vs @ replicate (length N) v)) c =
      (case map_of (zip K vs) c of
         None \<Rightarrow> map_of (zip N (replicate (length N) v)) c
       | Some x \<Rightarrow> Some x)"
    using assms by (simp add: map_add_def)
  show ?thesis
  proof (cases "c \<in> set K")
    case True
    then obtain x where "map_of (zip K vs) c = Some x"
      using map_of_zip_is_None[OF assms, of c] by auto
    with True split show ?thesis by simp
  next
    case False
    then have "map_of (zip K vs) c = None"
      using map_of_zip_is_None[OF assms, of c] by simp
    with False split pad show ?thesis by simp
  qed
qed

lemma map_of_zip_cells:
  "map_of (zip K (record_cells K r)) c =
     (if c \<in> set K then Some (case map_of r c of Some v \<Rightarrow> v | None \<Rightarrow> PFloat NaN) else None)"
  unfolding record_cells_def by (induction K) auto

lemma rows_to_dataframe_eq:
  "rows_to_dataframe rows =
     Inr \<lparr>df_columns = cols,
          df_index = map (\<lambda>i. PInt (int i)) [0..<length rows],
          df_data = map (\<lambda>r. map (export_cell rows r) cols) rows\<rparr>"
proof -
  define K where "K = record_columns [] rows"
  define df where "df = add_missing cols (pd_DataFrame rows)"
  from add_keys_append[of K cols] obtain N where
    N: "add_keys K cols = K @ N" "set N \<inter> set K = {}" "set N \<subseteq> set cols" by blast
  have Kset: "set K = set (concat (map (map fst) rows))" by (simp add: K_def record_columns_set)
  have dc: "df_columns df = K @ N"
    by (simp add: df_def add_missing_columns pd_DataFrame_def Let_def N flip: K_def)
  have dd: "df_data df = map (\<lambda>r. record_cells K r @ replicate (length N) PNone) rows"
    by (simp add: df_def add_missing_data pd_DataFrame_def Let_def N comp_def flip: K_def)
  have di: "df_index df = map (\<lambda>i. PInt (int i)) [0..<length rows]"
    by (simp add: df_def add_missing_index pd_DataFrame_def Let_def)
  have sub: "set cols \<subseteq> set (df_columns df)"
    using add_keys_set[of K cols] by (simp add: dc flip: N(1))
  have cell: "(case map_of (zip (K @ N) (record_cells K r @ replicate (length N) PNone)) c of
        Some v \<Rightarrow> v | None \<Rightarrow> PNone) = export_cell rows r c"
    if c: "c \<in> set cols" and r: "r \<in> set rows" for r c
  proof -
    have len: "length K = length (record_cells K r)" by (simp add: record_cells_def)
    have KN: "c \<in> set K \<or> c \<in> set N" using c sub dc by auto
    show ?thesis
    proof (cases "c \<in> set K")
      case True
      then have "c \<in> set (concat (map (map fst) rows))" using Kset by simp
      with True show ?thesis
        by (simp add: map_of_zip_padded[OF len] map_of_zip_cells export_cell_def
            del: set_concat)
    next
      case False
      have "map_of r c = None"
      proof (rule ccontr)
        assume "map_of r c \<noteq> None"
        then have "c \<in> fst ` set r" by (simp add: map_of_eq_None_iff)
        with r have "c \<in> set K" unfolding Kset by auto
        with False show False ..
      qed
      moreover have "c \<notin> set (concat (map (map fst) rows))" using False Kset by simp
      ultimately show ?thesis
        using False KN by (simp add: map_of_zip_padded[OF len] export_cell_def del: set_concat)
    qed
  qed
  have "map (\<lambda>r. map (\<lambda>c. case map_of (zip (df_columns df) r) c of Some v \<Rightarrow> v | None \<Rightarrow> PNone) cols)
          (df_data df) = map (\<lambda>r. map (export_cell rows r) cols) rows"
    unfolding dc dd using cell by (simp add: comp_def)
  then show ?thesis
    using sub di by (simp add: rows_to_dataframe_def select_columns_def flip: df_def)
qed

text \<open>
  C9, as the code has it. For every list of row dicts \<open>rows_to_dataframe\<close> returns a
  table whose columns are exactly the ten fields of the row schema (style, partId, color,
  size, description, warehouseId, warehouse, qty, totalAvailable, price) in this order,
  with one line per row; a field a row lacks is a null cell (\<open>NaN\<close>, or \<open>None\<close> when no
  row has the field), and a key outside the schema is dropped.
\<close>

theorem rows_to_dataframe_columns:
  "\<exists>df. rows_to_dataframe rows = Inr df
     \<and> df_columns df =
         [''style'', ''partId'', ''color'', ''size'', ''description'', ''warehouseId'',
          ''warehouse'', ''qty'', ''totalAvailable'', ''price'']
     \<and> length (df_columns df) = 10
     \<and> length (df_data df) = length rows
     \<and> df_data df = map (\<lambda>r. map (export_cell rows r) (df_columns df)) rows"
proof -
  let ?df = "\<lparr>df_columns = cols,
      df_index = map (\<lambda>i. PInt (int i)) [0..<length rows],
      df_data = map (\<lambda>r. map (export_cell rows r) cols) rows\<rparr>"
  have ret: "rows_to_dataframe rows = Inr ?df" by (rule rows_to_dataframe_eq)
  have names: "df_columns ?df =
      [''style'', ''partId'', ''color'', ''size'', ''description'', ''warehouseId'',
       ''warehouse'', ''qty'', ''totalAvailable'', ''price'']"
    by (simp add: cols_def)
  have count: "length (df_columns ?df) = 10" by (simp add: cols_def)
  have lines: "length (df_data ?df) = length rows" by simp
  have cells: "df_data ?df = map (\<lambda>r. map (export_cell rows r) (df_columns ?df)) rows" by simp
  from ret names count lines cells show ?thesis by blast
qed

text \<open>
  The schema the export writes has ten columns, not nine: one row with a style and a
  quantity (and a key of no concern to the export) comes out with ten cells.
\<close>

theorem rows_to_dataframe_nine_counterexample:
  "rows_to_dataframe [[(''style'', PStr ''PC61''), (''qty'', PInt 5), (''note'', PStr ''x'')]] =
     Inr \<lparr>df_columns =
            [''style'', ''partId'', ''color'', ''size'', ''description'', ''warehouseId'',
             ''warehouse'', ''qty'', ''totalAvailable'', ''price''],
          df_index = [PInt 0],
          df_data = [[PStr ''PC61'', PNone, PNone, PNone, PNone, PNone, PNone, PInt 5,
                      PNone, PNone]]\<rparr>
   \<and> length [''style'', ''partId'', ''color'', ''size'', ''description'', ''warehouseId'',
             ''warehouse'', ''qty'', ''totalAvailable'', ''price''] \<noteq> (9::nat)"
  by (simp add: rows_to_dataframe_eq cols_def export_cell_def)

section \<open>The parser and the fetch: what every run does\<close>

lemma and_then_Inr: "and_then m f = Inr y \<Longrightarrow> \<exists>x. m = Inr x \<and> f x = Inr y"
  by (cases m) (auto simp: and_then_def)

lemma and_then_simps [simp]: "and_then (Inr x) f = f x" "and_then (Inl e) f = Inl e"
  by (simp_all add: and_then_def)

lemma make_row_style:
  "slug \<noteq> [] \<Longrightarrow> env_get (make_row slug product wm c s p w q) ''style'' = PStr slug"
  by (simp add: make_row_def env_get_def py_or_def)

lemma stock_loop_invariant:
  assumes "\<forall>r \<in> set rows. P r" "\<And>w n. P (mk w n)"
  shows "\<forall>r \<in> set (stock_loop mk items rows). P r"
  using assms(1)
proof (induction items arbitrary: rows)
  case Nil
  then show ?case by simp
next
  case (Cons it items)
  obtain w q where it: "it = (w, q)" by (cases it)
  show ?case
  proof (cases "py_int q")
    case (Inl e)
    with Cons it show ?thesis by simp
  next
    case (Inr n)
    have "\<forall>r \<in> set (rows @ [mk w n]). P r" using Cons.prems assms(2) by simp
    from Cons.IH[OF this] Inr it show ?thesis by simp
  qed
qed

lemma option_rows_invariant:
  assumes "option_rows rt slug product wm c opt rows = Inr rows'"
    and "\<forall>r \<in> set rows. P r"
    and "\<And>s p w n. P (make_row slug product wm c s p w n)"
  shows "\<forall>r \<in> set rows'. P r"
proof -
  from assms(1) obtain s p items where
    "rows' = stock_loop (make_row slug product wm c s p) items rows"
    unfolding option_rows_def by (auto dest!: and_then_Inr)
  then show ?thesis
    using stock_loop_invariant[of rows P "make_row slug product wm c s p" items] assms(2,3)
    by simp
qed

lemma options_loop_invariant:
  assumes "options_loop rt slug product wm c opts rows = Inr rows'"
    and "\<forall>r \<in> set rows. P r"
    and "\<And>s p w n. P (make_row slug product wm c s p w n)"
  shows "\<forall>r \<in> set rows'. P r"
  using assms(1,2)
proof (induction opts arbitrary: rows)
  case Nil
  then show ?case by simp
next
  case (Cons opt opts)
  from Cons.prems(1) obtain rows1 where
    r1: "option_rows rt slug product wm c opt rows = Inr rows1"
      "options_loop rt slug product wm c opts rows1 = Inr rows'"
    by (auto dest!: and_then_Inr)
  have "\<forall>r \<in> set rows1. P r"
    by (rule option_rows_invariant[OF r1(1) Cons.prems(2) assms(3)])
  from Cons.IH[OF r1(2) this] show ?case .
qed

lemma parse_rows_invariant:
  assumes "parse_inventory_json rt data slug = Inr res"
    and "\<And>product wm c s p w n. P (make_row slug product wm c s p w n)"
  shows "\<forall>r \<in> set (env_rows res). P r"
proof -
  from assms(1) obtain product wm c opts rows where
    "options_loop rt slug product wm c opts [] = Inr rows" "res = PDict [(''rows'', PList rows)]"
    unfolding parse_inventory_json_def by (auto dest!: and_then_Inr)
  with options_loop_invariant[of rt slug product wm c opts "[]" rows P] assms(2)
  show ?thesis by (simp add: env_rows_def)
qed

lemma parse_rows_style:
  assumes "parse_inventory_json rt data slug = Inr res" "slug \<noteq> []"
  shows "\<forall>r \<in> set (env_rows res). env_get r ''style'' = PStr slug"
  using parse_rows_invariant[OF assms(1), of "\<lambda>r. env_get r ''style'' = PStr slug"]
    make_row_style[OF assms(2)] by simp

lemma before_underscore_differs:
  "CHR ''_'' \<in> set slug \<Longrightarrow> before_underscore slug \<noteq> slug"
  by (auto simp: before_underscore_def takeWhile_eq_all_conv)

lemma fetch_raised:
  "net (inventory_url slug) timeout = Raised e \<Longrightarrow>
   fetch_inventory_json rt net slug timeout = (Inl e, [inventory_url slug])"
  by (simp add: fetch_inventory_json_def)

lemma fetch_first_ok:
  "net (inventory_url slug) timeout = Response resp \<Longrightarrow> parse_response rt resp slug = Inr res \<Longrightarrow>
   fetch_inventory_json rt net slug timeout = (Inr res, [inventory_url slug])"
  by (simp add: fetch_inventory_json_def)

lemma fetch_no_retry:
  "net (inventory_url slug) timeout = Response resp \<Longrightarrow> parse_response rt resp slug = Inl e \<Longrightarrow>
   CHR ''_'' \<notin> set slug \<or> before_underscore slug = [] \<Longrightarrow>
   fetch_inventory_json rt net slug timeout =
     (Inr (error_envelope [inventory_url slug] resp), [inventory_url slug])"
  by (auto simp: fetch_inventory_json_def Let_def)

lemma fetch_retry:
  assumes "net (inventory_url slug) timeout = Response resp"
    and "parse_response rt resp slug = Inl e"
    and "CHR ''_'' \<in> set slug" "before_underscore slug \<noteq> []"
  shows "fetch_inventory_json rt net slug timeout =
    (case net (inventory_url (before_underscore slug)) timeout of
       Raised e2 \<Rightarrow>
         (Inr (error_envelope [inventory_url slug, inventory_url (before_underscore slug)] resp),
          [inventory_url slug, inventory_url (before_underscore slug)])
     | Response resp2 \<Rightarrow>
         (case parse_response rt resp2 (before_underscore slug) of
            Inr res \<Rightarrow> (Inr res, [inventory_url slug, inventory_url (before_underscore slug)])
          | Inl e2 \<Rightarrow>
              (Inr (error_envelope [inventory_url slug, inventory_url (before_underscore slug)] resp2),
               [inventory_url slug, inventory_url (before_underscore slug)])))"
  using assms before_underscore_differs[OF assms(3)]
  by (simp add: fetch_inventory_json_def Let_def)

lemma parse_response_fails:
  "(400 \<le> status_code resp \<and> status_code resp < 600) \<or> json_body resp = None \<Longrightarrow>
   \<exists>e. parse_response rt resp slug = Inl e"
  by (auto simp: parse_response_def raise_for_status_def resp_json_def)

lemma parse_response_ok:
  "\<not> (400 \<le> status_code resp \<and> status_code resp < 600) \<Longrightarrow> json_body resp = Some data \<Longrightarrow>
   parse_response rt resp slug = parse_inventory_json rt data slug"
  by (auto simp: parse_response_def raise_for_status_def resp_json_def)

lemma parse_response_Inr:
  "parse_response rt resp slug = Inr res \<Longrightarrow>
   \<exists>data. json_body resp = Some data \<and> parse_inventory_json rt data slug = Inr res"
  by (auto simp: parse_response_def resp_json_def dest!: and_then_Inr split: option.splits)

lemma snippet_length: "length (snippet_of resp) \<le> 300"
  by (simp add: snippet_of_def)

lemma error_envelope_rows: "env_rows (error_envelope urls resp) = []"
  by (simp add: error_envelope_def env_rows_def)

lemma fetch_returns:
  assumes "net (inventory_url slug) timeout = Response resp"
  shows "\<exists>res. fst (fetch_inventory_json rt net slug timeout) = Inr res"
proof (cases "parse_response rt resp slug")
  case (Inr res)
  with assms show ?thesis by (simp add: fetch_inventory_json_def)
next
  case (Inl e)
  show ?thesis
  proof (cases "CHR ''_'' \<in> set slug \<and> before_underscore slug \<noteq> []")
    case True
    with assms Inl fetch_retry[of net slug timeout resp rt e] show ?thesis
      by (auto split: http_result.splits sum.splits)
  next
    case False
    with assms Inl fetch_no_retry[of net slug timeout resp rt e] show ?thesis by auto
  qed
qed

lemma lower_header_names:
  "lower ''Content-Type'' = ''content-type''" "lower ''content-type'' = ''content-type''"
  by code_simp+

lemmas web_eval = fetch_inventory_json_def parse_response_def raise_for_status_def resp_json_def
  parse_inventory_json_def option_rows_def extract_price_def price_of_def make_row_def
  product_get_def py_or_def py_str_def inventory_url_def before_underscore_def
  after_underscore_def error_envelope_def error_message_def snippet_of_def content_type_of_def
  lower_header_names
  show_int_def show_nat.simps int_of_text_def int_space_def int_literal_def strip_def
  isspace_def isdigit_def
  digit_val_def Let_def sample_payload_def ok_response_def not_found_response_def
  multiple_choices_response_def net_not_found_def net_base_only_def net_down_def net_ok_def
  net_multiple_choices_def net_base_down_def

lemma fetch_rows_style:
  assumes ne: "slug \<noteq> []"
    and f: "fetch_inventory_json rt net slug timeout = (Inr res, log)"
  shows "(log = [inventory_url slug] \<and>
        (\<forall>r \<in> set (env_rows res). env_get r ''style'' = PStr slug))
      \<or> (log = [inventory_url slug, inventory_url (before_underscore slug)]
        \<and> before_underscore slug \<noteq> slug
        \<and> (\<forall>r \<in> set (env_rows res). env_get r ''style'' = PStr (before_underscore slug)))"
proof (cases "net (inventory_url slug) timeout")
  case (Raised e)
  from fetch_raised[of net slug timeout e rt, OF Raised] f show ?thesis by simp
next
  case (Response resp)
  show ?thesis
  proof (cases "parse_response rt resp slug")
    case (Inr res1)
    from trans[OF f[symmetric] fetch_first_ok[of net slug timeout resp rt res1, OF Response Inr]]
    have eq: "res = res1" "log = [inventory_url slug]" by simp_all
    from parse_response_Inr[OF Inr] obtain data where
      "parse_inventory_json rt data slug = Inr res1" by blast
    from parse_rows_style[OF this ne] have
      "\<forall>r \<in> set (env_rows res). env_get r ''style'' = PStr slug" by (simp only: eq)
    with eq(2) show ?thesis by blast
  next
    case (Inl e)
    show ?thesis
    proof (cases "CHR ''_'' \<in> set slug \<and> before_underscore slug \<noteq> []")
      case False
      then have "CHR ''_'' \<notin> set slug \<or> before_underscore slug = []" by blast
      from trans[OF f[symmetric] fetch_no_retry[of net slug timeout resp rt e, OF Response Inl this]]
      have "res = error_envelope [inventory_url slug] resp" "log = [inventory_url slug]"
        by simp_all
      then show ?thesis by (simp add: error_envelope_rows)
    next
      case True
      then have us: "CHR ''_'' \<in> set slug" and bne: "before_underscore slug \<noteq> []" by simp_all
      note r = fetch_retry[of net slug timeout resp rt e, OF Response Inl us bne]
      have d: "before_underscore slug \<noteq> slug" by (rule before_underscore_differs[OF us])
      let ?urls = "[inventory_url slug, inventory_url (before_underscore slug)]"
      show ?thesis
      proof (cases "net (inventory_url (before_underscore slug)) timeout")
        case (Raised e2)
        have "fetch_inventory_json rt net slug timeout = (Inr (error_envelope ?urls resp), ?urls)"
          unfolding r by (simp add: Raised)
        from trans[OF f[symmetric] this]
        have "res = error_envelope ?urls resp" "log = ?urls" by simp_all
        with d show ?thesis by (simp add: error_envelope_rows)
      next
        case R2: (Response resp2)
        show ?thesis
        proof (cases "parse_response rt resp2 (before_underscore slug)")
          case (Inl e2)
          have "fetch_inventory_json rt net slug timeout =
              (Inr (error_envelope ?urls resp2), ?urls)"
            unfolding r by (simp add: R2 Inl)
          from trans[OF f[symmetric] this]
          have "res = error_envelope ?urls resp2" "log = ?urls" by simp_all
          with d show ?thesis by (simp add: error_envelope_rows)
        next
          case (Inr res2)
          have "fetch_inventory_json rt net slug timeout = (Inr res2, ?urls)"
            unfolding r by (simp add: R2 Inr)
          from trans[OF f[symmetric] this] have eq: "res = res2" "log = ?urls" by simp_all
          from parse_response_Inr[OF Inr] obtain data2 where
            "parse_inventory_json rt data2 (before_underscore slug) = Inr res2" by blast
          from parse_rows_style[OF this bne] have
            "\<forall>r \<in> set (env_rows res). env_get r ''style'' = PStr (before_underscore slug)"
            by (simp only: eq)
          with eq(2) d show ?thesis by blast
        qed
      qed
    qed
  qed
qed

lemma int_digits_digit: "int_digits acc cs = Some n \<Longrightarrow> cs = [] \<or> list_ex isdigit cs"
  by (induction acc cs rule: int_digits.induct) (auto split: if_splits list.splits)

lemma int_literal_digit: "int_literal s = Some n \<Longrightarrow> list_ex isdigit s"
  by (auto simp: int_literal_def split: list.splits if_splits)

lemma trimmed_subset: "set (rev (dropWhile P (rev (dropWhile P s)))) \<subseteq> set s"
  using set_dropWhileD[of _ P "rev (dropWhile P s)"] set_dropWhileD[of _ P s] by auto

lemma int_of_text_digit:
  assumes "int_of_text s = Some n"
  shows "list_ex isdigit s"
proof -
  define t where "t = rev (dropWhile int_space (rev (dropWhile int_space s)))"
  have sub: "set t \<subseteq> set s" unfolding t_def by (rule trimmed_subset)
  from assms obtain c cs where t: "t = c # cs"
    and lit: "int_literal cs = Some (- n) \<or> int_literal cs = Some n \<or> int_literal (c # cs) = Some n"
    unfolding int_of_text_def t_def[symmetric]
    by (auto simp: Let_def split: if_splits list.splits)
  from lit int_literal_digit have "list_ex isdigit cs \<or> list_ex isdigit (c # cs)" by blast
  then have "list_ex isdigit t" by (auto simp: t)
  with sub show ?thesis by (auto simp: list_ex_iff)
qed

lemma non_numeric_rejected:
  assumes "non_numeric q" and "\<forall>b. q \<noteq> PBool b"
  shows "\<exists>e. py_int q = Inl e"
proof (cases q)
  case (PStr s)
  with assms(1) have "\<not> list_ex isdigit s" by simp
  with int_of_text_digit[of s] have "int_of_text s = None" by (cases "int_of_text s") auto
  with PStr show ?thesis by simp
next
  case (PFloat f)
  with assms(1) show ?thesis by (cases f) auto
qed (use assms in auto)

lemma stock_loop_rows: "stock_loop mk items acc = acc @ map (\<lambda>(w, n). mk w n) (coerced items)"
proof (induction items arbitrary: acc)
  case Nil
  then show ?case by (simp add: coerced_def)
next
  case (Cons it items)
  obtain w q where it: "it = (w, q)" by (cases it)
  show ?case
  proof (cases "py_int q")
    case (Inl e)
    with Cons.IH[of acc] it show ?thesis by (simp add: coerced_def)
  next
    case (Inr n)
    with Cons.IH[of "acc @ [mk w n]"] it show ?thesis by (simp add: coerced_def)
  qed
qed

lemma coerced_append: "coerced (xs @ ys) = coerced xs @ coerced ys"
  by (simp add: coerced_def)

lemma coerced_skip:
  "non_numeric q \<Longrightarrow> \<forall>b. q \<noteq> PBool b \<Longrightarrow> coerced ((w, q) # post) = coerced post"
  using non_numeric_rejected[of q] by (auto simp: coerced_def)

lemma stock_loop_skip:
  "non_numeric q \<Longrightarrow> \<forall>b. q \<noteq> PBool b \<Longrightarrow>
    stock_loop mk (pre @ (w, q) # post) acc = stock_loop mk (pre @ post) acc"
  by (simp add: stock_loop_rows coerced_append coerced_skip)

lemma make_row_qty: "env_get (make_row slug product wm c s p w n) ''qty'' = PInt n"
  by (simp add: make_row_def env_get_def)

lemma parse_rows_qty:
  assumes "parse_inventory_json rt data slug = Inr res"
  shows "\<forall>r \<in> set (env_rows res). \<exists>n. env_get r ''qty'' = PInt n"
  using parse_rows_invariant[OF assms, of "\<lambda>r. \<exists>n. env_get r ''qty'' = PInt n"] make_row_qty
  by blast

section \<open>C1: a failure of the first request\<close>

text \<open>
  C1. When the first \<open>requests.get\<close> raises (no connection, a timeout),
  \<open>fetch_inventory_json\<close> raises that exception to its caller: the call stands before
  the \<open>try\<close>, and no envelope is built. Once the first request has returned a response,
  every later failure is folded into a returned envelope.
\<close>

theorem first_request_failure_is_raised:
  "(net (inventory_url slug) timeout = Raised e \<longrightarrow>
      fetch_inventory_json rt net slug timeout = (Inl e, [inventory_url slug]))
   \<and> (net (inventory_url slug) timeout = Response resp \<longrightarrow>
      (\<exists>res. fst (fetch_inventory_json rt net slug timeout) = Inr res))"
  using fetch_raised fetch_returns by blast

text \<open>
  The network is down and the slug is \<open>PC61_White\<close>: the caller gets the
  \<open>ConnectionError\<close>, after one request.
\<close>

theorem first_request_failure_is_raised_witness:
  "fetch_inventory_json sample_builtins net_down ''PC61_White'' 20 =
     (Inl ConnectionError, [''https://www.sanmar.com/p/PC61_White/checkInventoryJson?pantWaistSize=''])"
  using first_request_failure_is_raised[of net_down "''PC61_White''" 20 ConnectionError sample_builtins]
  by (simp add: net_down_def inventory_url_def)


section \<open>C2: the retry against the base style\<close>

text \<open>
  C2, as the code has it. Let the slug contain an underscore with a non-empty part before
  the first one, and let the first request return a response that \<open>raise_for_status\<close>
  rejects (a status from 400 to 599) or whose body is not JSON. Then exactly two requests
  are made, the second for the base style. If the second also fails in one of these
  ways, or raises, the envelope has no rows, \<open>error\<close> true, and a message with both
  URLs, the status and the content type of the last response received (the header
  found whatever the case of its name), and at most 300 characters of its body.
\<close>

theorem retry_once_and_report:
  assumes "CHR ''_'' \<in> set slug" and "before_underscore slug \<noteq> []"
    and "net (inventory_url slug) timeout = Response resp"
    and "(400 \<le> status_code resp \<and> status_code resp < 600) \<or> json_body resp = None"
  shows "snd (fetch_inventory_json rt net slug timeout) =
      [inventory_url slug, inventory_url (before_underscore slug)]
    \<and> (net (inventory_url (before_underscore slug)) timeout = Response resp2
         \<and> ((400 \<le> status_code resp2 \<and> status_code resp2 < 600) \<or> json_body resp2 = None) \<longrightarrow>
         fst (fetch_inventory_json rt net slug timeout) =
           Inr (PDict
             [(''rows'', PList []), (''error'', PBool True),
              (''message'', PStr
                 (''Non-JSON response. Tried: '' @ inventory_url slug @ '', ''
                    @ inventory_url (before_underscore slug)
                    @ ''. Status '' @ show_int (status_code resp2)
                    @ '', content-type: '' @ content_type_of resp2
                    @ ''. First 300 chars: '' @ snippet_of resp2))])
         \<and> length (snippet_of resp2) \<le> 300)
    \<and> (net (inventory_url (before_underscore slug)) timeout = Raised e2 \<longrightarrow>
         fst (fetch_inventory_json rt net slug timeout) =
           Inr (PDict
             [(''rows'', PList []), (''error'', PBool True),
              (''message'', PStr
                 (''Non-JSON response. Tried: '' @ inventory_url slug @ '', ''
                    @ inventory_url (before_underscore slug)
                    @ ''. Status '' @ show_int (status_code resp)
                    @ '', content-type: '' @ content_type_of resp
                    @ ''. First 300 chars: '' @ snippet_of resp))])
         \<and> length (snippet_of resp) \<le> 300)"
proof -
  from parse_response_fails[OF assms(4)] obtain e where
    e: "parse_response rt resp slug = Inl e" by blast
  note r = fetch_retry[of net slug timeout resp rt e, OF assms(3) e assms(1,2)]
  have log: "snd (fetch_inventory_json rt net slug timeout) =
      [inventory_url slug, inventory_url (before_underscore slug)]"
    unfolding r by (simp split: http_result.splits sum.splits)
  have a: "fst (fetch_inventory_json rt net slug timeout) =
      Inr (error_envelope [inventory_url slug, inventory_url (before_underscore slug)] resp2)"
    if "net (inventory_url (before_underscore slug)) timeout = Response resp2"
      "(400 \<le> status_code resp2 \<and> status_code resp2 < 600) \<or> json_body resp2 = None"
  proof -
    from parse_response_fails[OF that(2)] obtain e' where
      "parse_response rt resp2 (before_underscore slug) = Inl e'" by blast
    with that(1) show ?thesis unfolding r by simp
  qed
  have b: "fst (fetch_inventory_json rt net slug timeout) =
      Inr (error_envelope [inventory_url slug, inventory_url (before_underscore slug)] resp)"
    if "net (inventory_url (before_underscore slug)) timeout = Raised e2"
    using that unfolding r by simp
  show ?thesis
    using log a b snippet_length
    by (simp add: error_envelope_def error_message_def)
qed

text \<open>
  The slug \<open>60397_InsBlue\<close> on a site that answers 404 to everything, and on one that
  answers 404 and then times out. The error page names its header \<open>content-type\<close>.
\<close>

theorem retry_once_and_report_witness:
  "fetch_inventory_json sample_builtins net_not_found ''60397_InsBlue'' 20 =
     (Inr (PDict
        [(''rows'', PList []), (''error'', PBool True),
         (''message'', PStr
            ''Non-JSON response. Tried: https://www.sanmar.com/p/60397_InsBlue/checkInventoryJson?pantWaistSize=, https://www.sanmar.com/p/60397/checkInventoryJson?pantWaistSize=. Status 404, content-type: text/html. First 300 chars: <html>Not Found</html>'')]),
      [''https://www.sanmar.com/p/60397_InsBlue/checkInventoryJson?pantWaistSize='',
       ''https://www.sanmar.com/p/60397/checkInventoryJson?pantWaistSize=''])
   \<and> fetch_inventory_json sample_builtins net_base_down ''60397_InsBlue'' 20 =
     (Inr (PDict
        [(''rows'', PList []), (''error'', PBool True),
         (''message'', PStr
            ''Non-JSON response. Tried: https://www.sanmar.com/p/60397_InsBlue/checkInventoryJson?pantWaistSize=, https://www.sanmar.com/p/60397/checkInventoryJson?pantWaistSize=. Status 404, content-type: text/html. First 300 chars: <html>Not Found</html>'')]),
      [''https://www.sanmar.com/p/60397_InsBlue/checkInventoryJson?pantWaistSize='',
       ''https://www.sanmar.com/p/60397/checkInventoryJson?pantWaistSize=''])"
proof -
  have h1: "CHR ''_'' \<in> set ''60397_InsBlue''" by simp
  have h2: "before_underscore ''60397_InsBlue'' \<noteq> []" by (simp add: before_underscore_def)
  have bu: "before_underscore ''60397_InsBlue'' = ''60397''" by (simp add: before_underscore_def)
  have h3: "net_not_found (inventory_url ''60397_InsBlue'') 20 = Response not_found_response"
    by (simp add: net_not_found_def)
  have h3': "net_base_down (inventory_url ''60397_InsBlue'') 20 = Response not_found_response"
    by (simp add: net_base_down_def)
  have h4: "(400 \<le> status_code not_found_response \<and> status_code not_found_response < 600)
      \<or> json_body not_found_response = None"
    by (simp add: not_found_response_def)
  have h5: "net_not_found (inventory_url (before_underscore ''60397_InsBlue'')) 20 =
      Response not_found_response"
    by (simp add: net_not_found_def)
  have h6: "net_base_down (inventory_url (before_underscore ''60397_InsBlue'')) 20 = Raised Timeout"
    unfolding bu by (simp add: net_base_down_def inventory_url_def)
  have msg: "''Non-JSON response. Tried: '' @ inventory_url ''60397_InsBlue'' @ '', ''
      @ inventory_url ''60397''
      @ ''. Status '' @ show_int (status_code not_found_response)
      @ '', content-type: '' @ content_type_of not_found_response
      @ ''. First 300 chars: '' @ snippet_of not_found_response =
    ''Non-JSON response. Tried: https://www.sanmar.com/p/60397_InsBlue/checkInventoryJson?pantWaistSize=, https://www.sanmar.com/p/60397/checkInventoryJson?pantWaistSize=. Status 404, content-type: text/html. First 300 chars: <html>Not Found</html>''"
    by (simp add: inventory_url_def show_int_def show_nat.simps content_type_of_def
        lower_header_names snippet_of_def not_found_response_def)
  have urls: "[inventory_url ''60397_InsBlue'', inventory_url ''60397''] =
      [''https://www.sanmar.com/p/60397_InsBlue/checkInventoryJson?pantWaistSize='',
       ''https://www.sanmar.com/p/60397/checkInventoryJson?pantWaistSize='']"
    by (simp add: inventory_url_def)
  from retry_once_and_report[where slug = "''60397_InsBlue''" and net = net_not_found
      and timeout = 20 and resp = not_found_response and ?resp2.0 = not_found_response
      and rt = sample_builtins, OF h1 h2 h3 h4] h5 h4
  have A: "fetch_inventory_json sample_builtins net_not_found ''60397_InsBlue'' 20 =
     (Inr (PDict
        [(''rows'', PList []), (''error'', PBool True),
         (''message'', PStr
            ''Non-JSON response. Tried: https://www.sanmar.com/p/60397_InsBlue/checkInventoryJson?pantWaistSize=, https://www.sanmar.com/p/60397/checkInventoryJson?pantWaistSize=. Status 404, content-type: text/html. First 300 chars: <html>Not Found</html>'')]),
      [''https://www.sanmar.com/p/60397_InsBlue/checkInventoryJson?pantWaistSize='',
       ''https://www.sanmar.com/p/60397/checkInventoryJson?pantWaistSize=''])"
    unfolding bu msg urls by (simp add: prod_eq_iff)
  from retry_once_and_report[where slug = "''60397_InsBlue''" and net = net_base_down
      and timeout = 20 and resp = not_found_response and rt = sample_builtins
      and ?e2.0 = Timeout, OF h1 h2 h3' h4] h6
  have B: "fetch_inventory_json sample_builtins net_base_down ''60397_InsBlue'' 20 =
     (Inr (PDict
        [(''rows'', PList []), (''error'', PBool True),
         (''message'', PStr
            ''Non-JSON response. Tried: https://www.sanmar.com/p/60397_InsBlue/checkInventoryJson?pantWaistSize=, https://www.sanmar.com/p/60397/checkInventoryJson?pantWaistSize=. Status 404, content-type: text/html. First 300 chars: <html>Not Found</html>'')]),
      [''https://www.sanmar.com/p/60397_InsBlue/checkInventoryJson?pantWaistSize='',
       ''https://www.sanmar.com/p/60397/checkInventoryJson?pantWaistSize=''])"
    unfolding bu msg urls by (simp add: prod_eq_iff)
  from A B show ?thesis by (rule conjI)
qed

text \<open>
  Two inputs the claim covers and the code treats otherwise. The slug \<open>_Blue\<close> has an
  underscore and an empty base: one request, no retry. A 300 with a JSON body is not a
  2xx status, yet \<open>raise_for_status\<close> lets it pass: the body is parsed, no retry.
\<close>

theorem retry_counterexample:
  "fetch_inventory_json sample_builtins net_not_found ''_Blue'' 20 =
     (Inr (PDict
        [(''rows'', PList []), (''error'', PBool True),
         (''message'', PStr
            ''Non-JSON response. Tried: https://www.sanmar.com/p/_Blue/checkInventoryJson?pantWaistSize=. Status 404, content-type: text/html. First 300 chars: <html>Not Found</html>'')]),
      [''https://www.sanmar.com/p/_Blue/checkInventoryJson?pantWaistSize=''])
   \<and> fetch_inventory_json sample_builtins net_multiple_choices ''PC61_White'' 20 =
     (Inr (PDict [(''rows'', PList [])]),
      [''https://www.sanmar.com/p/PC61_White/checkInventoryJson?pantWaistSize=''])"
  by (simp add: web_eval)


section \<open>C6: the style of the emitted rows\<close>

text \<open>
  C6, as the code has it, for a non-empty slug. When one request was made, every row of
  the result carries the slug as its style. When the retry was made, every row carries
  the base style, the slug up to its first underscore, which differs from the slug.
  The rows of \<open>parse_inventory_json\<close> carry the identifier it was called with.
\<close>

theorem rows_carry_requested_identifier:
  "(slug \<noteq> [] \<and> fetch_inventory_json rt net slug timeout = (Inr res, [inventory_url slug]) \<longrightarrow>
      (\<forall>r \<in> set (env_rows res). env_get r ''style'' = PStr slug))
   \<and> (slug \<noteq> [] \<and> fetch_inventory_json rt net slug timeout = (Inr res, log)
        \<and> log \<noteq> [inventory_url slug] \<longrightarrow>
      log = [inventory_url slug, inventory_url (before_underscore slug)]
      \<and> before_underscore slug \<noteq> slug
      \<and> (\<forall>r \<in> set (env_rows res). env_get r ''style'' = PStr (before_underscore slug)))
   \<and> (slug \<noteq> [] \<and> parse_inventory_json rt data slug = Inr res' \<longrightarrow>
      (\<forall>r \<in> set (env_rows res'). env_get r ''style'' = PStr slug))"
proof (intro conjI impI)
  assume a: "slug \<noteq> [] \<and> fetch_inventory_json rt net slug timeout = (Inr res, [inventory_url slug])"
  then have "[inventory_url slug] \<noteq> [inventory_url slug, inventory_url (before_underscore slug)]"
    by simp
  with fetch_rows_style[of slug rt net timeout res "[inventory_url slug]"] a
  show "\<forall>r \<in> set (env_rows res). env_get r ''style'' = PStr slug" by blast
next
  assume a: "slug \<noteq> [] \<and> fetch_inventory_json rt net slug timeout = (Inr res, log)
      \<and> log \<noteq> [inventory_url slug]"
  with fetch_rows_style[of slug rt net timeout res log]
  have b: "log = [inventory_url slug, inventory_url (before_underscore slug)]
        \<and> before_underscore slug \<noteq> slug
        \<and> (\<forall>r \<in> set (env_rows res). env_get r ''style'' = PStr (before_underscore slug))"
    by blast
  from b show "log = [inventory_url slug, inventory_url (before_underscore slug)]" by blast
  from b show "before_underscore slug \<noteq> slug" by blast
  from b show "\<forall>r \<in> set (env_rows res). env_get r ''style'' = PStr (before_underscore slug)"
    by blast
next
  assume "slug \<noteq> [] \<and> parse_inventory_json rt data slug = Inr res'"
  then show "\<forall>r \<in> set (env_rows res'). env_get r ''style'' = PStr slug"
    using parse_rows_style[of rt data slug res'] by blast
qed

text \<open>
  The slug \<open>60397_InsBlue\<close> answered at once: both rows are styled \<open>60397_InsBlue\<close>.
\<close>

theorem rows_carry_requested_identifier_witness:
  "fetch_inventory_json sample_builtins net_ok ''60397_InsBlue'' 20 =
     (Inr (PDict
        [(''rows'',
          PList
           [PDict
             [(''style'', PStr ''60397_InsBlue''), (''partId'', PStr []),
              (''color'', PStr ''InsBlue''), (''size'', PStr ''M''),
              (''description'', PStr ''Polo''), (''warehouseId'', PStr ''1''),
              (''warehouse'', PStr ''Dallas, TX''), (''qty'', PInt 5),
              (''totalAvailable'', PNone), (''price'', PNone)],
            PDict
             [(''style'', PStr ''60397_InsBlue''), (''partId'', PStr []),
              (''color'', PStr ''InsBlue''), (''size'', PStr ''M''),
              (''description'', PStr ''Polo''), (''warehouseId'', PStr ''4''),
              (''warehouse'', PStr []), (''qty'', PInt 7),
              (''totalAvailable'', PNone), (''price'', PNone)]])]),
      [''https://www.sanmar.com/p/60397_InsBlue/checkInventoryJson?pantWaistSize=''])
   \<and> list_all (\<lambda>r. env_get r ''style'' = PStr ''60397_InsBlue'')
       (env_rows (PDict
        [(''rows'',
          PList
           [PDict
             [(''style'', PStr ''60397_InsBlue''), (''partId'', PStr []),
              (''color'', PStr ''InsBlue''), (''size'', PStr ''M''),
              (''description'', PStr ''Polo''), (''warehouseId'', PStr ''1''),
              (''warehouse'', PStr ''Dallas, TX''), (''qty'', PInt 5),
              (''totalAvailable'', PNone), (''price'', PNone)],
            PDict
             [(''style'', PStr ''60397_InsBlue''), (''partId'', PStr []),
              (''color'', PStr ''InsBlue''), (''size'', PStr ''M''),
              (''description'', PStr ''Polo''), (''warehouseId'', PStr ''4''),
              (''warehouse'', PStr []), (''qty'', PInt 7),
              (''totalAvailable'', PNone), (''price'', PNone)]])]))"
proof -
  let ?res = "PDict
        [(''rows'',
          PList
           [PDict
             [(''style'', PStr ''60397_InsBlue''), (''partId'', PStr []),
              (''color'', PStr ''InsBlue''), (''size'', PStr ''M''),
              (''description'', PStr ''Polo''), (''warehouseId'', PStr ''1''),
              (''warehouse'', PStr ''Dallas, TX''), (''qty'', PInt 5),
              (''totalAvailable'', PNone), (''price'', PNone)],
            PDict
             [(''style'', PStr ''60397_InsBlue''), (''partId'', PStr []),
              (''color'', PStr ''InsBlue''), (''size'', PStr ''M''),
              (''description'', PStr ''Polo''), (''warehouseId'', PStr ''4''),
              (''warehouse'', PStr []), (''qty'', PInt 7),
              (''totalAvailable'', PNone), (''price'', PNone)]])]"
  have v: "fetch_inventory_json sample_builtins net_ok ''60397_InsBlue'' 20 =
      (Inr ?res, [''https://www.sanmar.com/p/60397_InsBlue/checkInventoryJson?pantWaistSize=''])"
    by (simp add: web_eval)
  have u: "[''https://www.sanmar.com/p/60397_InsBlue/checkInventoryJson?pantWaistSize=''] =
      [inventory_url ''60397_InsBlue'']"
    by (simp add: inventory_url_def)
  have "\<forall>r \<in> set (env_rows ?res). env_get r ''style'' = PStr ''60397_InsBlue''"
    using rows_carry_requested_identifier[where slug = "''60397_InsBlue''" and net = net_ok
        and rt = sample_builtins and timeout = 20 and res = ?res]
      v[unfolded u]
    by blast
  then have "list_all (\<lambda>r. env_get r ''style'' = PStr ''60397_InsBlue'') (env_rows ?res)"
    by (simp only: list_all_iff)
  with v show ?thesis by (rule conjI)
qed

text \<open>
  The slug \<open>60397_InsBlue\<close> answered only under the base style: both rows are styled
  \<open>60397\<close>, not with the identifier the caller gave.
\<close>

theorem retry_rows_counterexample:
  "fetch_inventory_json sample_builtins net_base_only ''60397_InsBlue'' 20 =
     (Inr (PDict
        [(''rows'',
          PList
           [PDict
             [(''style'', PStr ''60397''), (''partId'', PStr []),
              (''color'', PStr []), (''size'', PStr ''M''),
              (''description'', PStr ''Polo''), (''warehouseId'', PStr ''1''),
              (''warehouse'', PStr ''Dallas, TX''), (''qty'', PInt 5),
              (''totalAvailable'', PNone), (''price'', PNone)],
            PDict
             [(''style'', PStr ''60397''), (''partId'', PStr []),
              (''color'', PStr []), (''size'', PStr ''M''),
              (''description'', PStr ''Polo''), (''warehouseId'', PStr ''4''),
              (''warehouse'', PStr []), (''qty'', PInt 7),
              (''totalAvailable'', PNone), (''price'', PNone)]])]),
      [''https://www.sanmar.com/p/60397_InsBlue/checkInventoryJson?pantWaistSize='',
       ''https://www.sanmar.com/p/60397/checkInventoryJson?pantWaistSize=''])
   \<and> PStr ''60397'' \<noteq> PStr ''60397_InsBlue''"
  by (simp add: web_eval)


section \<open>C7: the offline parse and the live path\<close>

text \<open>
  The identifier reaches a row in two fields only. Parsing one payload under two
  identifiers fails alike, or gives the same rows up to \<open>style\<close> and \<open>color\<close>.
\<close>

lemma make_row_restyle:
  "slug' \<noteq> [] \<Longrightarrow>
   restyle slug' (make_row slug product wm c s p w n) =
     make_row slug' product wm (color_of_slug slug') s p w n"
  by (simp add: restyle_def make_row_def py_or_def)

lemma stock_loop_map:
  "stock_loop (\<lambda>w n. f (mk w n)) items (map f acc) = map f (stock_loop mk items acc)"
  by (simp add: stock_loop_rows split_def comp_def)

lemma option_rows_restyle:
  assumes "slug' \<noteq> []"
  shows "option_rows rt slug' product wm (color_of_slug slug') opt (map (restyle slug') rows) =
    and_then (option_rows rt slug product wm c opt rows) (\<lambda>out. Inr (map (restyle slug') out))"
proof -
  have mk: "make_row slug' product wm (color_of_slug slug') s p =
      (\<lambda>w n. restyle slug' (make_row slug product wm c s p w n))" for s p
    by (intro ext) (simp add: make_row_restyle[OF assms])
  show ?thesis
    unfolding option_rows_def mk
    by (simp add: and_then_def stock_loop_map split: sum.splits)
qed

lemma options_loop_restyle:
  assumes "slug' \<noteq> []"
  shows "options_loop rt slug' product wm (color_of_slug slug') opts (map (restyle slug') rows) =
    and_then (options_loop rt slug product wm c opts rows) (\<lambda>out. Inr (map (restyle slug') out))"
proof (induction opts arbitrary: rows)
  case Nil
  then show ?case by simp
next
  case (Cons opt opts)
  show ?case
  proof (cases "option_rows rt slug product wm c opt rows")
    case (Inl e)
    with option_rows_restyle[OF assms, of rt product wm opt rows slug c] show ?thesis by simp
  next
    case (Inr rows1)
    with option_rows_restyle[OF assms, of rt product wm opt rows slug c] Cons.IH[of rows1]
    show ?thesis by simp
  qed
qed

lemma and_then_assoc: "and_then (and_then m f) g = and_then m (\<lambda>x. and_then (f x) g)"
  by (cases m) simp_all

lemma parse_restyle:
  assumes "slug' \<noteq> []"
  shows "parse_inventory_json rt data slug' =
    and_then (parse_inventory_json rt data slug)
      (\<lambda>res. Inr (PDict [(''rows'', PList (map (restyle slug') (env_rows res)))]))"
proof -
  have key: "and_then
        (options_loop rt slug' product wm
           (if slug' \<noteq> [] \<and> CHR ''_'' \<in> set slug' then after_underscore slug' else [])
           opts [])
        (\<lambda>rows. Inr (PDict [(''rows'', PList rows)])) =
      and_then
        (options_loop rt slug product wm
           (if slug \<noteq> [] \<and> CHR ''_'' \<in> set slug then after_underscore slug else [])
           opts [])
        (\<lambda>rows. Inr (PDict [(''rows'', PList (map (restyle slug') rows))]))"
    for product wm opts
    using options_loop_restyle[OF assms, of rt product wm opts "[]" slug
        "if slug \<noteq> [] \<and> CHR ''_'' \<in> set slug then after_underscore slug else []"]
    by (cases "options_loop rt slug product wm
          (if slug \<noteq> [] \<and> CHR ''_'' \<in> set slug then after_underscore slug else []) opts []")
      (simp_all add: color_of_slug_def)
  have "parse_inventory_json rt data slug' =
     and_then (dict_get data ''product'' (PDict [])) (\<lambda>product.
     and_then (dict_get data ''warehouses'' (PList [])) (\<lambda>warehouse_list.
     and_then (py_iter warehouse_list) (\<lambda>ws.
     and_then (warehouse_names rt ws []) (\<lambda>warehouse_map.
     and_then (dict_get product ''variantOptions'' (PList [])) (\<lambda>variant_options.
     and_then (py_iter variant_options) (\<lambda>opts.
     and_then
       (options_loop rt slug product warehouse_map
          (if slug \<noteq> [] \<and> CHR ''_'' \<in> set slug then after_underscore slug else [])
          opts [])
       (\<lambda>rows. Inr (PDict [(''rows'', PList (map (restyle slug') rows))]))))))))"
    unfolding parse_inventory_json_def by (simp only: key)
  also have "\<dots> = and_then (parse_inventory_json rt data slug)
      (\<lambda>res. Inr (PDict [(''rows'', PList (map (restyle slug') (env_rows res)))]))"
    unfolding parse_inventory_json_def by (simp add: and_then_assoc env_rows_def)
  finally show ?thesis .
qed

lemma restyle_changes:
  assumes "slug' \<noteq> []" "slug \<noteq> []" "slug' \<noteq> slug"
  shows "restyle slug' (make_row slug product wm c s p w n) \<noteq> make_row slug product wm c s p w n"
proof
  assume "restyle slug' (make_row slug product wm c s p w n) = make_row slug product wm c s p w n"
  then have "env_get (restyle slug' (make_row slug product wm c s p w n)) ''style'' =
      env_get (make_row slug product wm c s p w n) ''style''"
    by simp
  with assms show False
    by (simp add: make_row_restyle make_row_style)
qed

text \<open>
  C7, as the code has it. The offline branch requests nothing and its result is that of
  the parser on the payload and the identifier. When the live path accepts the first
  response, offline and live results on the same payload and slug are equal. When the
  live path falls back to the base style and accepts that response, its rows are those
  of the payload parsed under the base style; the offline parse of the same payload
  under the slug itself succeeds too and gives the same rows with \<open>style\<close> and \<open>color\<close>
  written from the slug, and each of them differs from the live row. A payload the
  parser rejects under one identifier it rejects under every other.
\<close>

theorem offline_parse_matches_live:
  "cli_webjson rt net' (Some data) slug = (parse_inventory_json rt data slug, [])
   \<and> (net (inventory_url slug) 20 = Response resp
      \<and> \<not> (400 \<le> status_code resp \<and> status_code resp < 600)
      \<and> json_body resp = Some data
      \<and> parse_inventory_json rt data slug = Inr res \<longrightarrow>
      cli_webjson rt net None slug = (Inr res, [inventory_url slug])
      \<and> cli_webjson rt net' (Some data) slug = (Inr res, []))
   \<and> (net (inventory_url slug) 20 = Response resp
      \<and> ((400 \<le> status_code resp \<and> status_code resp < 600) \<or> json_body resp = None)
      \<and> CHR ''_'' \<in> set slug \<and> before_underscore slug \<noteq> []
      \<and> net (inventory_url (before_underscore slug)) 20 = Response resp2
      \<and> \<not> (400 \<le> status_code resp2 \<and> status_code resp2 < 600)
      \<and> json_body resp2 = Some data2
      \<and> parse_inventory_json rt data2 (before_underscore slug) = Inr res2 \<longrightarrow>
      cli_webjson rt net None slug =
        (Inr res2, [inventory_url slug, inventory_url (before_underscore slug)])
      \<and> cli_webjson rt net' (Some data2) slug =
        (Inr (PDict [(''rows'', PList (map (restyle slug) (env_rows res2)))]), [])
      \<and> list_all (\<lambda>r. restyle slug r \<noteq> r) (env_rows res2))
   \<and> (parse_inventory_json rt data slug = Inl e \<longrightarrow> parse_inventory_json rt data slug' = Inl e)"
proof (intro conjI impI)
  show "cli_webjson rt net' (Some data) slug = (parse_inventory_json rt data slug, [])"
    by (simp add: cli_webjson_def)
next
  assume a: "net (inventory_url slug) 20 = Response resp
      \<and> \<not> (400 \<le> status_code resp \<and> status_code resp < 600)
      \<and> json_body resp = Some data
      \<and> parse_inventory_json rt data slug = Inr res"
  then have "parse_response rt resp slug = Inr res"
    using parse_response_ok[of resp data rt slug] by simp
  with a show "cli_webjson rt net None slug = (Inr res, [inventory_url slug])"
    using fetch_first_ok[of net slug 20 resp rt res] by (simp add: cli_webjson_def)
  from a show "cli_webjson rt net' (Some data) slug = (Inr res, [])"
    by (simp add: cli_webjson_def)
next
  assume a: "net (inventory_url slug) 20 = Response resp
      \<and> ((400 \<le> status_code resp \<and> status_code resp < 600) \<or> json_body resp = None)
      \<and> CHR ''_'' \<in> set slug \<and> before_underscore slug \<noteq> []
      \<and> net (inventory_url (before_underscore slug)) 20 = Response resp2
      \<and> \<not> (400 \<le> status_code resp2 \<and> status_code resp2 < 600)
      \<and> json_body resp2 = Some data2
      \<and> parse_inventory_json rt data2 (before_underscore slug) = Inr res2"
  then obtain e where e: "parse_response rt resp slug = Inl e"
    using parse_response_fails[of resp rt slug] by blast
  from a have p2: "parse_response rt resp2 (before_underscore slug) = Inr res2"
    using parse_response_ok[of resp2 data2 rt "before_underscore slug"] by simp
  from a e have "fetch_inventory_json rt net slug 20 =
      (Inr res2, [inventory_url slug, inventory_url (before_underscore slug)])"
    using fetch_retry[of net slug 20 resp rt e] p2 by simp
  then show "cli_webjson rt net None slug =
      (Inr res2, [inventory_url slug, inventory_url (before_underscore slug)])"
    by (simp add: cli_webjson_def)
  from a have ne: "slug \<noteq> []" and bne: "before_underscore slug \<noteq> []"
    and d: "slug \<noteq> before_underscore slug"
    using before_underscore_differs[of slug] by auto
  from a parse_restyle[OF ne, of rt data2 "before_underscore slug"]
  show "cli_webjson rt net' (Some data2) slug =
      (Inr (PDict [(''rows'', PList (map (restyle slug) (env_rows res2)))]), [])"
    by (simp add: cli_webjson_def)
  from a have "parse_inventory_json rt data2 (before_underscore slug) = Inr res2" by simp
  from parse_rows_invariant[OF this, of "\<lambda>r. restyle slug r \<noteq> r"]
    restyle_changes[OF ne bne d]
  show "list_all (\<lambda>r. restyle slug r \<noteq> r) (env_rows res2)"
    by (simp add: list_all_iff)
next
  assume a: "parse_inventory_json rt data slug = Inl e"
  show "parse_inventory_json rt data slug' = Inl e"
  proof (cases "slug' = []")
    case False
    from parse_restyle[OF False, of rt data slug] a show ?thesis by simp
  next
    case True
    show ?thesis
    proof (cases "slug = []")
      case True
      with \<open>slug' = []\<close> a show ?thesis by simp
    next
      case False
      from parse_restyle[OF False, of rt data slug'] a show ?thesis
        by (cases "parse_inventory_json rt data slug'") auto
    qed
  qed
qed

text \<open>
  The sample payload and the slug \<open>60397_InsBlue\<close>: a site that answers the slug, and one
  that answers the base style only.
\<close>

theorem offline_parse_matches_live_witness:
  "fst (cli_webjson sample_builtins net_down (Some sample_payload) ''60397_InsBlue'') =
     fst (cli_webjson sample_builtins net_ok None ''60397_InsBlue'')
   \<and> snd (cli_webjson sample_builtins net_down (Some sample_payload) ''60397_InsBlue'') = []
   \<and> (\<exists>res2. cli_webjson sample_builtins net_base_only None ''60397_InsBlue'' =
        (Inr res2, [inventory_url ''60397_InsBlue'', inventory_url ''60397''])
      \<and> cli_webjson sample_builtins net_down (Some sample_payload) ''60397_InsBlue'' =
        (Inr (PDict [(''rows'', PList (map (restyle ''60397_InsBlue'') (env_rows res2)))]), [])
      \<and> list_all (\<lambda>r. restyle ''60397_InsBlue'' r \<noteq> r) (env_rows res2))
   \<and> parse_inventory_json sample_builtins (PList []) ''60397_InsBlue'' = Inl AttributeError
   \<and> parse_inventory_json sample_builtins (PList []) ''60397'' = Inl AttributeError"
proof -
  obtain res where res: "parse_inventory_json sample_builtins sample_payload ''60397_InsBlue'' = Inr res"
    by (simp add: web_eval)
  obtain res2 where res2: "parse_inventory_json sample_builtins sample_payload ''60397'' = Inr res2"
    by (simp add: web_eval)
  have bu: "before_underscore ''60397_InsBlue'' = ''60397''" by (simp add: before_underscore_def)
  have bad: "parse_inventory_json sample_builtins (PList []) ''60397_InsBlue'' = Inl AttributeError"
    by (simp add: parse_inventory_json_def)
  note t = offline_parse_matches_live[where slug = "''60397_InsBlue''" and rt = sample_builtins
      and net' = net_down and slug' = "''60397''" and e = AttributeError]
  have hA: "net_ok (inventory_url ''60397_InsBlue'') 20 = Response ok_response
      \<and> \<not> (400 \<le> status_code ok_response \<and> status_code ok_response < 600)
      \<and> json_body ok_response = Some sample_payload
      \<and> parse_inventory_json sample_builtins sample_payload ''60397_InsBlue'' = Inr res"
    by (simp add: res net_ok_def ok_response_def)
  have A: "cli_webjson sample_builtins net_ok None ''60397_InsBlue'' =
        (Inr res, [inventory_url ''60397_InsBlue''])
      \<and> cli_webjson sample_builtins net_down (Some sample_payload) ''60397_InsBlue'' = (Inr res, [])"
    using t[where net = net_ok and resp = ok_response and data = sample_payload and res = res] hA
    by blast
  have hB: "net_base_only (inventory_url ''60397_InsBlue'') 20 = Response not_found_response
      \<and> ((400 \<le> status_code not_found_response \<and> status_code not_found_response < 600)
          \<or> json_body not_found_response = None)
      \<and> CHR ''_'' \<in> set ''60397_InsBlue'' \<and> before_underscore ''60397_InsBlue'' \<noteq> []
      \<and> net_base_only (inventory_url (before_underscore ''60397_InsBlue'')) 20 = Response ok_response
      \<and> \<not> (400 \<le> status_code ok_response \<and> status_code ok_response < 600)
      \<and> json_body ok_response = Some sample_payload
      \<and> parse_inventory_json sample_builtins sample_payload (before_underscore ''60397_InsBlue'') =
          Inr res2"
    unfolding bu
    by (simp add: res2 net_base_only_def ok_response_def not_found_response_def inventory_url_def)
  have B: "cli_webjson sample_builtins net_base_only None ''60397_InsBlue'' =
        (Inr res2, [inventory_url ''60397_InsBlue'', inventory_url ''60397''])
      \<and> cli_webjson sample_builtins net_down (Some sample_payload) ''60397_InsBlue'' =
        (Inr (PDict [(''rows'', PList (map (restyle ''60397_InsBlue'') (env_rows res2)))]), [])
      \<and> list_all (\<lambda>r. restyle ''60397_InsBlue'' r \<noteq> r) (env_rows res2)"
    using t[where net = net_base_only and resp = not_found_response and ?resp2.0 = ok_response
        and ?data2.0 = sample_payload and ?res2.0 = res2 and data = sample_payload] hB
    unfolding bu
    by blast
  have C: "parse_inventory_json sample_builtins (PList []) ''60397'' = Inl AttributeError"
    using t[where data = "PList []"] bad by blast
  from A have A': "fst (cli_webjson sample_builtins net_down (Some sample_payload) ''60397_InsBlue'') =
     fst (cli_webjson sample_builtins net_ok None ''60397_InsBlue'')
   \<and> snd (cli_webjson sample_builtins net_down (Some sample_payload) ''60397_InsBlue'') = []"
    by simp
  from A' B C bad show ?thesis by blast
qed

text \<open>
  The claim fails on the fallback: the site answers the base style only, and the rows of
  the live path carry the style \<open>60397\<close> and no color, where the offline parse of the
  same payload under the same slug gives \<open>60397_InsBlue\<close> and \<open>InsBlue\<close>.
\<close>

theorem offline_live_counterexample:
  "cli_webjson sample_builtins net_base_only None ''60397_InsBlue'' =
     (Inr (PDict
        [(''rows'',
          PList
           [PDict
             [(''style'', PStr ''60397''), (''partId'', PStr []),
              (''color'', PStr []), (''size'', PStr ''M''),
              (''description'', PStr ''Polo''), (''warehouseId'', PStr ''1''),
              (''warehouse'', PStr ''Dallas, TX''), (''qty'', PInt 5),
              (''totalAvailable'', PNone), (''price'', PNone)],
            PDict
             [(''style'', PStr ''60397''), (''partId'', PStr []),
              (''color'', PStr []), (''size'', PStr ''M''),
              (''description'', PStr ''Polo''), (''warehouseId'', PStr ''4''),
              (''warehouse'', PStr []), (''qty'', PInt 7),
              (''totalAvailable'', PNone), (''price'', PNone)]])]),
      [''https://www.sanmar.com/p/60397_InsBlue/checkInventoryJson?pantWaistSize='',
       ''https://www.sanmar.com/p/60397/checkInventoryJson?pantWaistSize=''])
   \<and> cli_webjson sample_builtins net_down (Some sample_payload) ''60397_InsBlue'' =
     (Inr (PDict
        [(''rows'',
          PList
           [PDict
             [(''style'', PStr ''60397_InsBlue''), (''partId'', PStr []),
              (''color'', PStr ''InsBlue''), (''size'', PStr ''M''),
              (''description'', PStr ''Polo''), (''warehouseId'', PStr ''1''),
              (''warehouse'', PStr ''Dallas, TX''), (''qty'', PInt 5),
              (''totalAvailable'', PNone), (''price'', PNone)],
            PDict
             [(''style'', PStr ''60397_InsBlue''), (''partId'', PStr []),
              (''color'', PStr ''InsBlue''), (''size'', PStr ''M''),
              (''description'', PStr ''Polo''), (''warehouseId'', PStr ''4''),
              (''warehouse'', PStr []), (''qty'', PInt 7),
              (''totalAvailable'', PNone), (''price'', PNone)]])]),
      [])
   \<and> fst (cli_webjson sample_builtins net_base_only None ''60397_InsBlue'') \<noteq>
     fst (cli_webjson sample_builtins net_down (Some sample_payload) ''60397_InsBlue'')"
  by (simp add: web_eval cli_webjson_def)

section \<open>C8: quantities\<close>

text \<open>
  A cell of a warehouse row is the quantity of one of the rows, or 0: the builder
  neither checks nor changes the sign it is given.
\<close>

lemma fold_stock_member:
  "stock_qty (warehouses (foldl (\<lambda>p r. record_row r p) p rs)) w s = stock_qty (warehouses p) w s
   \<or> stock_qty (warehouses (foldl (\<lambda>p r. record_row r p) p rs)) w s \<in> qty ` set rs"
proof (induction rs arbitrary: p)
  case Nil
  then show ?case by simp
next
  case (Cons r rs)
  from Cons.IH[of "record_row r p"] show ?case
    by (auto simp: record_row_stock split: if_splits)
qed

lemma grouped_stock_member:
  "stock_qty (warehouses (grouped rows)) w s = 0
   \<or> stock_qty (warehouses (grouped rows)) w s \<in> qty ` set rows"
  using fold_stock_member[of new_product_data "style_group rows" w s]
  by (auto simp: grouped_def new_product_stock style_group_def)

lemma format_cells_int:
  assumes df: "format_inventory_table rt rows pricing_data = Inr df"
  shows "\<forall>cells \<in> set (drop 3 (df_data df)). \<forall>c \<in> set cells.
      \<exists>n. c = PInt n \<and> ((\<forall>r \<in> set rows. 0 \<le> qty r) \<longrightarrow> 0 \<le> n)"
proof -
  from format_cases[OF df] consider
      "df = pd_DataFrame_empty"
    | "df = pd_DataFrame_cell ''Message'' (PStr ''No size data available'')"
    | ss where "df = matrix_of rt pricing_data (warehouses (grouped rows)) ss"
    by blast
  then show ?thesis
  proof cases
    case 1
    then show ?thesis by (simp add: pd_DataFrame_empty_def)
  next
    case 2
    then show ?thesis by (simp add: pd_DataFrame_cell_def)
  next
    case 3
    have "0 \<le> sum_list (map (\<lambda>w. stock_qty (warehouses (grouped rows)) w s) ws)"
      if "\<forall>r \<in> set rows. 0 \<le> qty r" for s ws
      using grouped_stock_nonneg[OF that] by (intro sum_list_nonneg) auto
    with 3 grouped_stock_nonneg[of rows] show ?thesis
      by (auto simp: matrix_of_def Let_def)
  qed
qed

lemma format_warehouse_cells:
  assumes df: "format_inventory_table rt rows pricing_data = Inr df"
  shows "\<forall>row \<in> set (warehouse_part df). \<forall>c \<in> set (snd row).
      \<exists>n. c = PInt n \<and> (n = 0 \<or> n \<in> qty ` set rows)"
proof -
  from format_cases[OF df] consider
      "df = pd_DataFrame_empty"
    | "df = pd_DataFrame_cell ''Message'' (PStr ''No size data available'')"
    | ss where "df = matrix_of rt pricing_data (warehouses (grouped rows)) ss"
    by blast
  then show ?thesis
  proof cases
    case 1
    then show ?thesis by (simp add: pd_DataFrame_empty_def warehouse_part_def)
  next
    case 2
    then show ?thesis by (simp add: pd_DataFrame_cell_def warehouse_part_def)
  next
    case 3
    show ?thesis
      unfolding 3 warehouse_part_matrix using grouped_stock_member[of rows] by auto
  qed
qed

text \<open>
  C8, as the code has it. Every cell below the three heading rows of the matrix,
  warehouse rows and Total row alike, is an integer, and it is non-negative when the
  quantities of the rows are; a cell of a warehouse row is 0 or the quantity of one of
  the rows, so a negative quantity is shown as it came. In the parser the loop over a
  stock map gives one row per entry that \<open>int\<close> accepts and none for the others, and every
  row it gives carries an integer. An entry whose quantity is non-numeric and not a
  boolean leaves the emitted rows as they are without it, and with them the matrix the
  builder makes of the rows, Total row included.
\<close>

theorem quantities_numeric_and_nonnegative:
  "(format_inventory_table rt rows pricing_data = Inr df \<longrightarrow>
      (\<forall>cells \<in> set (drop 3 (df_data df)). \<forall>c \<in> set cells.
         \<exists>n. c = PInt n \<and> ((\<forall>r \<in> set rows. 0 \<le> qty r) \<longrightarrow> 0 \<le> n))
      \<and> (\<forall>row \<in> set (warehouse_part df). \<forall>c \<in> set (snd row).
         \<exists>n. c = PInt n \<and> (n = 0 \<or> n \<in> qty ` set rows)))
   \<and> (non_numeric q \<and> (\<forall>b. q \<noteq> PBool b) \<longrightarrow>
      stock_loop mk (pre @ (w, q) # post) acc = stock_loop mk (pre @ post) acc
      \<and> format_inventory_table rt (map canonical (stock_loop mk (pre @ (w, q) # post) acc))
          pricing_data =
        format_inventory_table rt (map canonical (stock_loop mk (pre @ post) acc)) pricing_data)
   \<and> stock_loop mk items acc = acc @ map (\<lambda>(w, n). mk w n) (coerced items)
   \<and> (parse_inventory_json rt data slug = Inr res \<longrightarrow>
      (\<forall>r \<in> set (env_rows res). \<exists>n. env_get r ''qty'' = PInt n \<and> qty (canonical r) = n))"
proof (intro conjI impI)
  assume "format_inventory_table rt rows pricing_data = Inr df"
  then show "\<forall>cells \<in> set (drop 3 (df_data df)). \<forall>c \<in> set cells.
      \<exists>n. c = PInt n \<and> ((\<forall>r \<in> set rows. 0 \<le> qty r) \<longrightarrow> 0 \<le> n)"
    by (rule format_cells_int)
next
  assume "format_inventory_table rt rows pricing_data = Inr df"
  then show "\<forall>row \<in> set (warehouse_part df). \<forall>c \<in> set (snd row).
      \<exists>n. c = PInt n \<and> (n = 0 \<or> n \<in> qty ` set rows)"
    by (rule format_warehouse_cells)
next
  assume a: "non_numeric q \<and> (\<forall>b. q \<noteq> PBool b)"
  then show s: "stock_loop mk (pre @ (w, q) # post) acc = stock_loop mk (pre @ post) acc"
    by (simp add: stock_loop_skip)
  show "format_inventory_table rt (map canonical (stock_loop mk (pre @ (w, q) # post) acc))
          pricing_data =
        format_inventory_table rt (map canonical (stock_loop mk (pre @ post) acc)) pricing_data"
    by (simp only: s)
next
  show "stock_loop mk items acc = acc @ map (\<lambda>(w, n). mk w n) (coerced items)"
    by (rule stock_loop_rows)
next
  assume "parse_inventory_json rt data slug = Inr res"
  from parse_rows_invariant[OF this,
      of "\<lambda>r. \<exists>n. env_get r ''qty'' = PInt n \<and> qty (canonical r) = n"]
  show "\<forall>r \<in> set (env_rows res). \<exists>n. env_get r ''qty'' = PInt n \<and> qty (canonical r) = n"
    by (simp add: make_row_qty canonical_def)
qed

text \<open>
  The sample payload has the entries 5, \<open>n/a\<close>, \<open>null\<close> and \<open>"7"\<close>: two rows come out, and
  the matrix of them has two warehouse rows and the Total 12.
\<close>

theorem quantities_numeric_and_nonnegative_witness:
  "stock_loop (make_row ''60397'' PNone [] [] (PStr ''M'') None)
        [(''1'', PInt 5), (''2'', PStr ''n/a''), (''3'', PNone), (''4'', PStr ''7'')] [] =
      stock_loop (make_row ''60397'' PNone [] [] (PStr ''M'') None)
        [(''1'', PInt 5), (''3'', PNone), (''4'', PStr ''7'')] []
   \<and> parse_inventory_json sample_builtins sample_payload ''60397'' =
      Inr (PDict
        [(''rows'',
          PList
           [PDict
             [(''style'', PStr ''60397''), (''partId'', PStr []),
              (''color'', PStr []), (''size'', PStr ''M''),
              (''description'', PStr ''Polo''), (''warehouseId'', PStr ''1''),
              (''warehouse'', PStr ''Dallas, TX''), (''qty'', PInt 5),
              (''totalAvailable'', PNone), (''price'', PNone)],
            PDict
             [(''style'', PStr ''60397''), (''partId'', PStr []),
              (''color'', PStr []), (''size'', PStr ''M''),
              (''description'', PStr ''Polo''), (''warehouseId'', PStr ''4''),
              (''warehouse'', PStr []), (''qty'', PInt 7),
              (''totalAvailable'', PNone), (''price'', PNone)]])])
   \<and> (\<exists>res. parse_inventory_json sample_builtins sample_payload ''60397'' = Inr res
      \<and> list_all (\<lambda>r. \<exists>n. env_get r ''qty'' = PInt n \<and> qty (canonical r) = n) (env_rows res)
      \<and> format_inventory_table sample_builtins (map canonical (env_rows res)) None =
        Inr \<lparr>df_columns = [''M''],
             df_index = [PStr ''Price: $'', PStr ''Case Size'', PStr ''Warehouse'',
                         PStr ''Dallas, TX'', PStr ''Warehouse 4'', PStr ''Total Inventory''],
             df_data = [[PStr ''37.26''], [PNone], [PStr ''M''], [PInt 5], [PInt 7],
                        [PInt 12]]\<rparr>)
   \<and> list_all (list_all (\<lambda>c. \<exists>n\<ge>0. c = PInt n)) [[PInt 5], [PInt 7], [PInt 12]]"
proof -
  let ?res = "PDict
        [(''rows'',
          PList
           [PDict
             [(''style'', PStr ''60397''), (''partId'', PStr []),
              (''color'', PStr []), (''size'', PStr ''M''),
              (''description'', PStr ''Polo''), (''warehouseId'', PStr ''1''),
              (''warehouse'', PStr ''Dallas, TX''), (''qty'', PInt 5),
              (''totalAvailable'', PNone), (''price'', PNone)],
            PDict
             [(''style'', PStr ''60397''), (''partId'', PStr []),
              (''color'', PStr []), (''size'', PStr ''M''),
              (''description'', PStr ''Polo''), (''warehouseId'', PStr ''4''),
              (''warehouse'', PStr []), (''qty'', PInt 7),
              (''totalAvailable'', PNone), (''price'', PNone)]])]"
  let ?rows = "map canonical (env_rows ?res)"
  let ?df = "\<lparr>df_columns = [''M''],
         df_index = [PStr ''Price: $'', PStr ''Case Size'', PStr ''Warehouse'',
                     PStr ''Dallas, TX'', PStr ''Warehouse 4'', PStr ''Total Inventory''],
         df_data = [[PStr ''37.26''], [PNone], [PStr ''M''], [PInt 5], [PInt 7], [PInt 12]]\<rparr>"
  have c: "parse_inventory_json sample_builtins sample_payload ''60397'' = Inr ?res"
    by (simp add: web_eval)
  have rows: "?rows = [(inventory_row ''60397'' ''M'' ''1'' ''Dallas, TX'' 5)\<lparr>description := ''Polo''\<rparr>,
      (inventory_row ''60397'' ''M'' ''4'' [] 7)\<lparr>description := ''Polo''\<rparr>]"
    by (simp add: env_rows_def canonical_def text_field_def env_get_def inventory_row_def)
  have val: "format_inventory_table sample_builtins ?rows None = Inr ?df"
    unfolding rows by (simp add: fmt_eval)
  have nn: "\<forall>r \<in> set ?rows. 0 \<le> qty r"
    unfolding rows by (simp add: inventory_row_def)
  have q: "non_numeric (PStr ''n/a'') \<and> (\<forall>b. PStr ''n/a'' \<noteq> PBool b)"
    by (simp add: isdigit_def)
  note t = quantities_numeric_and_nonnegative[where rows = ?rows and rt = sample_builtins
      and pricing_data = None and df = ?df and q = "PStr ''n/a''" and w = "''2''"
      and pre = "[(''1'', PInt 5)]" and post = "[(''3'', PNone), (''4'', PStr ''7'')]"
      and acc = "[]" and mk = "make_row ''60397'' PNone [] [] (PStr ''M'') None"
      and data = sample_payload and slug = "''60397''" and res = ?res]
  from t val have "\<forall>cells \<in> set (drop 3 (df_data ?df)). \<forall>c \<in> set cells.
      \<exists>n. c = PInt n \<and> ((\<forall>r \<in> set ?rows. 0 \<le> qty r) \<longrightarrow> 0 \<le> n)"
    by blast
  with nn have "\<forall>cells \<in> set (drop 3 (df_data ?df)). \<forall>c \<in> set cells. \<exists>n\<ge>0. c = PInt n"
    by blast
  then have a: "list_all (list_all (\<lambda>c. \<exists>n\<ge>0. c = PInt n)) [[PInt 5], [PInt 7], [PInt 12]]"
    by (simp add: list_all_iff)
  from t q have b: "stock_loop (make_row ''60397'' PNone [] [] (PStr ''M'') None)
        [(''1'', PInt 5), (''2'', PStr ''n/a''), (''3'', PNone), (''4'', PStr ''7'')] [] =
      stock_loop (make_row ''60397'' PNone [] [] (PStr ''M'') None)
        [(''1'', PInt 5), (''3'', PNone), (''4'', PStr ''7'')] []"
    by simp
  from t c have "\<forall>r \<in> set (env_rows ?res). \<exists>n. env_get r ''qty'' = PInt n \<and> qty (canonical r) = n"
    by blast
  then have d: "list_all (\<lambda>r. \<exists>n. env_get r ''qty'' = PInt n \<and> qty (canonical r) = n) (env_rows ?res)"
    by (simp only: list_all_iff)
  from c d val have e: "\<exists>res. parse_inventory_json sample_builtins sample_payload ''60397'' = Inr res
      \<and> list_all (\<lambda>r. \<exists>n. env_get r ''qty'' = PInt n \<and> qty (canonical r) = n) (env_rows res)
      \<and> format_inventory_table sample_builtins (map canonical (env_rows res)) None = Inr ?df"
    by blast
  from b c e a show ?thesis by blast
qed

text \<open>
  The claim fails on a negative quantity and on a boolean. The payload reports \<open>-3\<close> for
  Dallas, \<open>true\<close> for Reno and the text \<open>7.0\<close> for a third warehouse: the parser emits a
  row with the quantity \<open>-3\<close> and a row with the quantity 1 for the non-numeric \<open>true\<close>,
  and the matrix shows \<open>-3\<close>, 1 and the Total \<open>-2\<close>.
\<close>

theorem quantities_counterexample:
  "parse_inventory_json sample_builtins signed_payload ''PC61'' =
      Inr (PDict
        [(''rows'',
          PList
           [PDict
             [(''style'', PStr ''PC61''), (''partId'', PStr []),
              (''color'', PStr []), (''size'', PStr ''M''),
              (''description'', PStr []), (''warehouseId'', PStr ''1''),
              (''warehouse'', PStr ''Dallas, TX''), (''qty'', PInt (- 3)),
              (''totalAvailable'', PNone), (''price'', PNone)],
            PDict
             [(''style'', PStr ''PC61''), (''partId'', PStr []),
              (''color'', PStr []), (''size'', PStr ''M''),
              (''description'', PStr []), (''warehouseId'', PStr ''2''),
              (''warehouse'', PStr ''Reno, NV''), (''qty'', PInt 1),
              (''totalAvailable'', PNone), (''price'', PNone)]])])
   \<and> non_numeric (PBool True)
   \<and> format_inventory_table sample_builtins
        [inventory_row ''PC61'' ''M'' ''1'' ''Dallas, TX'' (- 3),
         inventory_row ''PC61'' ''M'' ''2'' ''Reno, NV'' 1] None =
      Inr \<lparr>df_columns = [''M''],
           df_index = [PStr ''Price: $'', PStr ''Case Size'', PStr ''Warehouse'',
                       PStr ''Dallas, TX'', PStr ''Reno, NV'', PStr ''Total Inventory''],
           df_data = [[PStr ''37.26''], [PNone], [PStr ''M''], [PInt (- 3)], [PInt 1],
                      [PInt (- 2)]]\<rparr>
   \<and> map canonical
        [PDict
          [(''style'', PStr ''PC61''), (''partId'', PStr []),
           (''color'', PStr []), (''size'', PStr ''M''),
           (''description'', PStr []), (''warehouseId'', PStr ''1''),
           (''warehouse'', PStr ''Dallas, TX''), (''qty'', PInt (- 3)),
           (''totalAvailable'', PNone), (''price'', PNone)],
         PDict
          [(''style'', PStr ''PC61''), (''partId'', PStr []),
           (''color'', PStr []), (''size'', PStr ''M''),
           (''description'', PStr []), (''warehouseId'', PStr ''2''),
           (''warehouse'', PStr ''Reno, NV''), (''qty'', PInt 1),
           (''totalAvailable'', PNone), (''price'', PNone)]] =
      [inventory_row ''PC61'' ''M'' ''1'' ''Dallas, TX'' (- 3),
       inventory_row ''PC61'' ''M'' ''2'' ''Reno, NV'' 1]"
proof -
  have a: "parse_inventory_json sample_builtins signed_payload ''PC61'' =
      Inr (PDict
        [(''rows'',
          PList
           [PDict
             [(''style'', PStr ''PC61''), (''partId'', PStr []),
              (''color'', PStr []), (''size'', PStr ''M''),
              (''description'', PStr []), (''warehouseId'', PStr ''1''),
              (''warehouse'', PStr ''Dallas, TX''), (''qty'', PInt (- 3)),
              (''totalAvailable'', PNone), (''price'', PNone)],
            PDict
             [(''style'', PStr ''PC61''), (''partId'', PStr []),
              (''color'', PStr []), (''size'', PStr ''M''),
              (''description'', PStr []), (''warehouseId'', PStr ''2''),
              (''warehouse'', PStr ''Reno, NV''), (''qty'', PInt 1),
              (''totalAvailable'', PNone), (''price'', PNone)]])])"
    by (simp add: web_eval signed_payload_def)
  have b: "format_inventory_table sample_builtins
        [inventory_row ''PC61'' ''M'' ''1'' ''Dallas, TX'' (- 3),
         inventory_row ''PC61'' ''M'' ''2'' ''Reno, NV'' 1] None =
      Inr \<lparr>df_columns = [''M''],
           df_index = [PStr ''Price: $'', PStr ''Case Size'', PStr ''Warehouse'',
                       PStr ''Dallas, TX'', PStr ''Reno, NV'', PStr ''Total Inventory''],
           df_data = [[PStr ''37.26''], [PNone], [PStr ''M''], [PInt (- 3)], [PInt 1],
                      [PInt (- 2)]]\<rparr>"
    by (simp add: fmt_eval)
  have c: "map canonical
        [PDict
          [(''style'', PStr ''PC61''), (''partId'', PStr []),
           (''color'', PStr []), (''size'', PStr ''M''),
           (''description'', PStr []), (''warehouseId'', PStr ''1''),
           (''warehouse'', PStr ''Dallas, TX''), (''qty'', PInt (- 3)),
           (''totalAvailable'', PNone), (''price'', PNone)],
         PDict
          [(''style'', PStr ''PC61''), (''partId'', PStr []),
           (''color'', PStr []), (''size'', PStr ''M''),
           (''description'', PStr []), (''warehouseId'', PStr ''2''),
           (''warehouse'', PStr ''Reno, NV''), (''qty'', PInt 1),
           (''totalAvailable'', PNone), (''price'', PNone)]] =
      [inventory_row ''PC61'' ''M'' ''1'' ''Dallas, TX'' (- 3),
       inventory_row ''PC61'' ''M'' ''2'' ''Reno, NV'' 1]"
    by (simp add: canonical_def text_field_def env_get_def inventory_row_def)
  from a b c show ?thesis by simp
qed

end
